theory Spec2Isabelle
  imports Complex_Main "HOL-Library.Word"
begin

unbundle bit_operations_syntax

section \<open>Stencil upload of the GLES framebuffer manager (GPU/GLES/StencilBufferGLES.cpp)\<close>

subsection \<open>Machine types and raw memory\<close>

type_synonym u8 = "8 word"
type_synonym u16 = "16 word"
type_synonym u32 = "32 word"

text \<open>
  A \<open>const u8 *\<close> is modelled as the function from a byte offset to the byte stored there.
  The scanners cast the byte pointer to \<open>const u32 *\<close>; \<open>read_u32 ptr8 i\<close> is the value of
  \<open>ptr[i]\<close> on a little-endian host (the emulated machine and every host the emulator
  targets are little-endian).
\<close>

type_synonym u8ptr = "nat \<Rightarrow> u8"

definition read_u32 :: "u8ptr \<Rightarrow> nat \<Rightarrow> u32" where
  "read_u32 ptr8 i =
     ucast (ptr8 (4 * i)) OR push_bit 8 (ucast (ptr8 (4 * i + 1)))
       OR push_bit 16 (ucast (ptr8 (4 * i + 2))) OR push_bit 24 (ucast (ptr8 (4 * i + 3)))"

text \<open>The k-th 16-bit pixel and the k-th 32-bit pixel of the same memory.\<close>

definition pixel16 :: "u8ptr \<Rightarrow> nat \<Rightarrow> u16" where
  "pixel16 ptr8 k = ucast (ptr8 (2 * k)) OR push_bit 8 (ucast (ptr8 (2 * k + 1)))"

definition pixel32 :: "u8ptr \<Rightarrow> nat \<Rightarrow> u32" where
  "pixel32 ptr8 k = read_u32 ptr8 k"

text \<open>The stencil field of a pixel: bit 15 (5551), the top nibble (4444), the top byte (8888).\<close>

definition stencil5551 :: "u16 \<Rightarrow> bool" where
  "stencil5551 px = bit px 15"

definition alpha4444 :: "u16 \<Rightarrow> u8" where
  "alpha4444 px = ucast (drop_bit 12 px)"

definition alpha8888 :: "u32 \<Rightarrow> u8" where
  "alpha8888 px = ucast (drop_bit 24 px)"

subsection \<open>The bit-plane scanners\<close>

text \<open>
  \<open>StencilBits5551\<close>: the loop over \<open>i < numPixels / 2\<close>. Beside the returned byte the model
  keeps the list of word indices that were loaded, in order, so that the early exit can be
  observed.
\<close>

function StencilBits5551_loop :: "u8ptr \<Rightarrow> nat \<Rightarrow> nat \<Rightarrow> nat list \<Rightarrow> u8 \<times> nat list" where
  "StencilBits5551_loop ptr8 n i loaded =
     (if i < n then
        (if read_u32 ptr8 i AND 0x80008000 \<noteq> 0 then (1, loaded @ [i])
         else StencilBits5551_loop ptr8 n (Suc i) (loaded @ [i]))
      else (0, loaded))"
  by pat_completeness auto
termination
  by (relation "measure (\<lambda>(ptr8, n, i, loaded). n - i)") auto

declare StencilBits5551_loop.simps [simp del]

definition StencilBits5551_run :: "u8ptr \<Rightarrow> u32 \<Rightarrow> u8 \<times> nat list" where
  "StencilBits5551_run ptr8 numPixels = StencilBits5551_loop ptr8 (unat (numPixels div 2)) 0 []"

definition StencilBits5551 :: "u8ptr \<Rightarrow> u32 \<Rightarrow> u8" where
  "StencilBits5551 ptr8 numPixels = fst (StencilBits5551_run ptr8 numPixels)"

function StencilBits4444_loop :: "u8ptr \<Rightarrow> nat \<Rightarrow> nat \<Rightarrow> u32 \<Rightarrow> u32" where
  "StencilBits4444_loop ptr8 n i bits =
     (if i < n then StencilBits4444_loop ptr8 n (Suc i) (bits OR read_u32 ptr8 i) else bits)"
  by pat_completeness auto
termination
  by (relation "measure (\<lambda>(ptr8, n, i, bits). n - i)") auto

declare StencilBits4444_loop.simps [simp del]

definition StencilBits4444 :: "u8ptr \<Rightarrow> u32 \<Rightarrow> u8" where
  "StencilBits4444 ptr8 numPixels =
     (let bits = StencilBits4444_loop ptr8 (unat (numPixels div 2)) 0 0
      in ucast ((drop_bit 12 bits AND 0xF) OR drop_bit 28 bits))"

function StencilBits8888_loop :: "u8ptr \<Rightarrow> nat \<Rightarrow> nat \<Rightarrow> u32 \<Rightarrow> u32" where
  "StencilBits8888_loop ptr8 n i bits =
     (if i < n then StencilBits8888_loop ptr8 n (Suc i) (bits OR read_u32 ptr8 i) else bits)"
  by pat_completeness auto
termination
  by (relation "measure (\<lambda>(ptr8, n, i, bits). n - i)") auto

declare StencilBits8888_loop.simps [simp del]

definition StencilBits8888 :: "u8ptr \<Rightarrow> u32 \<Rightarrow> u8" where
  "StencilBits8888 ptr8 numPixels =
     ucast (drop_bit 24 (StencilBits8888_loop ptr8 (unat numPixels) 0 0))"


text \<open>The loop test of \<open>StencilBits5551\<close> on the i-th word: \<open>ptr[i] & 0x80008000\<close>.\<close>

definition hit5551 :: "u8ptr \<Rightarrow> nat \<Rightarrow> bool" where
  "hit5551 ptr8 w \<longleftrightarrow> read_u32 ptr8 w AND 0x80008000 \<noteq> 0"

subsection \<open>Shader sources\<close>

definition nl :: string where
  "nl = [CHR 0x0A]"

definition gles_prefix :: string where
  "gles_prefix = ''#version 100'' @ nl @ ''precision highp float;'' @ nl"

definition stencil_fs :: string where
  "stencil_fs =
     ''varying vec2 v_texcoord0;'' @ nl @
     ''uniform float u_stencilValue;'' @ nl @
     ''uniform sampler2D tex;'' @ nl @
     ''float roundAndScaleTo255f(in float x) { return floor(x * 255.99); }'' @ nl @
     ''void main() {'' @ nl @
     ''  vec4 index = texture2D(tex, v_texcoord0);'' @ nl @
     ''  gl_FragColor = vec4(index.a);'' @ nl @
     ''  float shifted = roundAndScaleTo255f(index.a) / roundAndScaleTo255f(u_stencilValue);'' @ nl @
     ''  if (mod(floor(shifted), 2.0) < 0.99) discard;'' @ nl @
     ''}'' @ nl"

definition stencil_vs :: string where
  "stencil_vs =
     ''attribute vec4 a_position;'' @ nl @
     ''attribute vec2 a_texcoord0;'' @ nl @
     ''varying vec2 v_texcoord0;'' @ nl @
     ''void main() {'' @ nl @
     ''  v_texcoord0 = a_texcoord0;'' @ nl @
     ''  gl_Position = a_position;'' @ nl @
     ''}'' @ nl"

text \<open>\<open>GLSLES100PrefixProgram\<close>; the flag is \<open>gl_extensions.IsGLES\<close>.\<close>

definition GLSLES100PrefixProgram :: "bool \<Rightarrow> string \<Rightarrow> string" where
  "GLSLES100PrefixProgram isGLES code = (if isGLES then gles_prefix @ code else code)"

subsection \<open>Render targets, collaborators and the calls made to them\<close>

datatype GEBufferFormat =
  GE_FORMAT_565 | GE_FORMAT_5551 | GE_FORMAT_4444 | GE_FORMAT_8888 | GE_FORMAT_INVALID

text \<open>Handles of GPU objects (\<open>Draw::Framebuffer *\<close>, \<open>GLSLProgram *\<close>); a null pointer is \<open>None\<close>.\<close>

type_synonym Framebuffer = nat
type_synonym GLSLProgram = nat

text \<open>
  The fields of \<open>VirtualFramebuffer\<close> that the function reads. The struct is declared outside
  this file: the sizes are 16-bit, as the locals \<open>u16 w\<close> and \<open>u16 h\<close> that receive them, and
  the stride is an \<open>int\<close>. No statement below depends on the width of the stride.
\<close>

record VirtualFramebuffer =
  fb_address :: u32
  fb_stride :: int
  width :: u16
  height :: u16
  renderWidth :: u16
  renderHeight :: u16
  bufferWidth :: u16
  bufferHeight :: u16
  format :: GEBufferFormat
  fbo :: "Framebuffer option"

datatype clear_bit = GL_STENCIL_BUFFER_BIT | GL_COLOR_BUFFER_BIT
datatype stencil_op = GL_REPLACE
datatype compare_func = GL_ALWAYS
datatype fbo_format = FBO_8888
datatype rotation = ROTATION_LOCKED_HORIZONTAL
datatype blit_bit = FB_STENCIL_BIT
datatype blit_filter = FB_BLIT_NEAREST

text \<open>
  Every call the function makes to the GL state cache, to GL and to the other components,
  with its arguments. The behaviour of the function that callers and the GPU can observe is
  the sequence of these calls, the returned flag and the cached shader program.
  Floating-point arguments are kept as the real numbers the source text denotes.
\<close>

datatype call =
    ScissorTestDisable
  | ColorMaskSet bool bool bool bool
  | GlClearColor real real real real
  | GlClearStencil int
  | GlClear "clear_bit set"
  | GlslCreateSource string string
  | ErrorLogReport string
  | GlslBind GLSLProgram
  | GlUniform1i int int
  | DirtyLastShader
  | DisableState
  | StencilTestEnable
  | StencilOpSet stencil_op stencil_op stencil_op
  | GetTempFBO u16 u16 fbo_format
  | BindFramebufferAsRenderTarget Framebuffer
  | GlViewport int int u16 u16
  | MakePixelTexture nat GEBufferFormat int u16 u16
  | ForgetLastTexture
  | StencilFuncSet compare_func int int
  | StencilMaskSet int
  | GlUniform1f int real
  | DrawActiveTexture real real u16 u16 u16 u16 real real real real rotation bool
  | BlitFramebuffer "Framebuffer option" int int u16 u16 "Framebuffer option" int int u16 u16
      blit_bit blit_filter
  | RebindFramebuffer

fun is_draw :: "call \<Rightarrow> bool" where
  "is_draw (DrawActiveTexture x y w h dw dh u0 v0 u1 v1 r l) = True"
| "is_draw c = False"

fun is_stencil_mask :: "call \<Rightarrow> bool" where
  "is_stencil_mask (StencilMaskSet m) = True"
| "is_stencil_mask c = False"

fun is_shader_call :: "call \<Rightarrow> bool" where
  "is_shader_call (GlslCreateSource vs fs) = True"
| "is_shader_call (GlslBind p) = True"
| "is_shader_call c = False"

text \<open>
  What the function uses and this file does not define: the address tests of the framebuffer
  manager, the emulated memory (\<open>Memory::GetPointer\<close> gives the host offset of the address,
  or null), the shader compiler (\<open>glsl_create_source\<close> gives the program or null, and the error
  text), uniform lookup, the blit capability flags, the temporary framebuffer pool, and the
  texture extent that \<open>MakePixelTexture\<close> writes back into \<open>u1\<close> and \<open>v1\<close>.
\<close>

record env =
  MayIntersectFramebuffer :: "u32 \<Rightarrow> bool"
  MaskedEqual :: "u32 \<Rightarrow> u32 \<Rightarrow> bool"
  GetPointer :: "u32 \<Rightarrow> nat option"
  memory :: "nat \<Rightarrow> u8"
  IsGLES :: bool
  glsl_create_source :: "string \<Rightarrow> string \<Rightarrow> GLSLProgram option \<times> string"
  glsl_uniform_loc :: "GLSLProgram option \<Rightarrow> string \<Rightarrow> int"
  Supports_FRAMEBUFFER_BLIT :: bool
  TempFBO :: "u16 \<Rightarrow> u16 \<Rightarrow> fbo_format \<Rightarrow> Framebuffer"
  PixelTexture_uv :: "GEBufferFormat \<Rightarrow> int \<Rightarrow> u16 \<Rightarrow> u16 \<Rightarrow> real \<times> real"

text \<open>
  The members of the framebuffer manager the function touches (\<open>vfbs_\<close> and
  \<open>stencilUploadProgram_\<close> in the source; a name cannot end in an underscore here), and the
  calls issued so far.
\<close>

record FramebufferManagerGLES =
  vfbs :: "VirtualFramebuffer list"
  stencilUploadProgram :: "GLSLProgram option"
  issued :: "call list"

definition emit :: "call list \<Rightarrow> FramebufferManagerGLES \<Rightarrow> FramebufferManagerGLES" where
  "emit cs st = st\<lparr>issued := issued st @ cs\<rparr>"

subsection \<open>\<open>NotifyStencilUpload\<close>\<close>

text \<open>The search loop over \<open>vfbs_\<close>: it does not stop at a match, so the last match wins.\<close>

fun find_dstBuffer ::
  "(u32 \<Rightarrow> u32 \<Rightarrow> bool) \<Rightarrow> u32 \<Rightarrow> VirtualFramebuffer list \<Rightarrow> VirtualFramebuffer option
     \<Rightarrow> VirtualFramebuffer option" where
  "find_dstBuffer maskedEqual addr [] dstBuffer = dstBuffer"
| "find_dstBuffer maskedEqual addr (vfb # rest) dstBuffer =
     find_dstBuffer maskedEqual addr rest
       (if maskedEqual (fb_address vfb) addr then Some vfb else dstBuffer)"

text \<open>\<open>fb_stride * bufferHeight\<close>, an \<open>int\<close> product converted to the \<open>u32\<close> parameter.\<close>

definition numPixels_of :: "VirtualFramebuffer \<Rightarrow> u32" where
  "numPixels_of dstBuffer = word_of_int (fb_stride dstBuffer * uint (bufferHeight dstBuffer))"

text \<open>
  The \<open>switch\<close> on the format: \<open>None\<close> is the \<open>return false\<close> of the 565 case, otherwise the
  pair \<open>(usedBits, values)\<close>; the invalid format leaves both at their initial 0.
\<close>

definition stencil_switch :: "u8ptr \<Rightarrow> VirtualFramebuffer \<Rightarrow> (u8 \<times> int) option" where
  "stencil_switch src dstBuffer =
     (case format dstBuffer of
        GE_FORMAT_565 \<Rightarrow> None
      | GE_FORMAT_5551 \<Rightarrow> Some (StencilBits5551 src (numPixels_of dstBuffer), 2)
      | GE_FORMAT_4444 \<Rightarrow> Some (StencilBits4444 src (numPixels_of dstBuffer), 16)
      | GE_FORMAT_8888 \<Rightarrow> Some (StencilBits8888 src (numPixels_of dstBuffer), 256)
      | GE_FORMAT_INVALID \<Rightarrow> Some (0, 0))"

text \<open>The clear issued when \<open>usedBits\<close> is 0 and \<open>skipZero\<close> is false.\<close>

definition zero_clear :: "call list" where
  "zero_clear =
     [ScissorTestDisable, ColorMaskSet False False False True, GlClearColor 0 0 0 0,
      GlClearStencil 0, GlClear {GL_STENCIL_BUFFER_BIT, GL_COLOR_BUFFER_BIT}]"

text \<open>
  Creating or binding \<open>stencilUploadProgram_\<close>. When the compilation fails the member stays
  null, the error is reported, nothing is bound, and the uniform is still looked up on the
  null program.
\<close>

definition bind_stencilUploadProgram ::
  "env \<Rightarrow> FramebufferManagerGLES \<Rightarrow> FramebufferManagerGLES" where
  "bind_stencilUploadProgram e st =
     (case stencilUploadProgram st of
        None \<Rightarrow>
          (let vs = GLSLES100PrefixProgram (IsGLES e) stencil_vs;
               fs = GLSLES100PrefixProgram (IsGLES e) stencil_fs;
               (program, errorString) = glsl_create_source e vs fs;
               st1 = emit [GlslCreateSource vs fs] (st\<lparr>stencilUploadProgram := program\<rparr>);
               st2 = (case program of
                        None \<Rightarrow> emit [ErrorLogReport errorString] st1
                      | Some p \<Rightarrow> emit [GlslBind p] st1)
           in emit [GlUniform1i (glsl_uniform_loc e program ''tex'') 0] st2)
      | Some p \<Rightarrow> emit [GlslBind p] st)"

text \<open>One pass of the loop body that is not skipped.\<close>

definition plane_calls :: "VirtualFramebuffer \<Rightarrow> int \<Rightarrow> real \<times> real \<Rightarrow> int \<Rightarrow> call list" where
  "plane_calls dstBuffer u_stencilValue uv i =
     (if format dstBuffer = GE_FORMAT_4444 then
        [StencilMaskSet (push_bit 4 i OR i), GlUniform1f u_stencilValue (real_of_int i * (16 / 255))]
      else if format dstBuffer = GE_FORMAT_5551 then
        [StencilMaskSet 0xFF, GlUniform1f u_stencilValue (real_of_int i * (128 / 255))]
      else
        [StencilMaskSet i, GlUniform1f u_stencilValue (real_of_int i * (1 / 255))])
     @ [DrawActiveTexture 0 0 (width dstBuffer) (height dstBuffer)
          (bufferWidth dstBuffer) (bufferHeight dstBuffer) 0 0 (fst uv) (snd uv)
          ROTATION_LOCKED_HORIZONTAL False]"

text \<open>
  The loop \<open>for (int i = 1; i < values; i += i)\<close>. The doubling does not advance from a
  counter that is not positive, so the loop is a partial function; \<open>None\<close> means that it does
  not return.
\<close>

partial_function (option) draw_loop ::
  "VirtualFramebuffer \<Rightarrow> int \<Rightarrow> real \<times> real \<Rightarrow> u8 \<Rightarrow> int \<Rightarrow> int \<Rightarrow> call list
     \<Rightarrow> call list option" where
  "draw_loop dstBuffer u_stencilValue uv usedBits values i cs =
     (if i < values then
        (if uint usedBits AND i = 0 then
           draw_loop dstBuffer u_stencilValue uv usedBits values (i + i) cs
         else
           draw_loop dstBuffer u_stencilValue uv usedBits values (i + i)
             (cs @ plane_calls dstBuffer u_stencilValue uv i))
      else Some cs)"

text \<open>The blit decision and the render size.\<close>

definition useBlit_of :: "env \<Rightarrow> VirtualFramebuffer \<Rightarrow> bool" where
  "useBlit_of e dstBuffer =
     (if bufferWidth dstBuffer = renderWidth dstBuffer \<or> fbo dstBuffer = None then False
      else Supports_FRAMEBUFFER_BLIT e)"

text \<open>The calls from \<open>DirtyLastShader\<close> to the \<open>stencilFunc\<close> setting, before the loop.\<close>

definition upload_prologue :: "env \<Rightarrow> VirtualFramebuffer \<Rightarrow> nat \<Rightarrow> call list" where
  "upload_prologue e dstBuffer src =
     (let useBlit = useBlit_of e dstBuffer;
          w = (if useBlit then bufferWidth dstBuffer else renderWidth dstBuffer);
          h = (if useBlit then bufferHeight dstBuffer else renderHeight dstBuffer)
      in [DirtyLastShader, DisableState, ColorMaskSet False False False True, StencilTestEnable,
          StencilOpSet GL_REPLACE GL_REPLACE GL_REPLACE]
         @ (if useBlit then
              [GetTempFBO w h FBO_8888, BindFramebufferAsRenderTarget (TempFBO e w h FBO_8888)]
            else (case fbo dstBuffer of
                    Some f \<Rightarrow> [BindFramebufferAsRenderTarget f]
                  | None \<Rightarrow> []))
         @ [GlViewport 0 0 w h,
            MakePixelTexture src (format dstBuffer) (fb_stride dstBuffer)
              (bufferWidth dstBuffer) (bufferHeight dstBuffer),
            ForgetLastTexture, GlClearStencil 0, GlClear {GL_STENCIL_BUFFER_BIT},
            StencilFuncSet GL_ALWAYS 0xFF 0xFF])"

text \<open>The calls after the loop.\<close>

definition upload_epilogue :: "env \<Rightarrow> VirtualFramebuffer \<Rightarrow> call list" where
  "upload_epilogue e dstBuffer =
     (let useBlit = useBlit_of e dstBuffer;
          w = (if useBlit then bufferWidth dstBuffer else renderWidth dstBuffer);
          h = (if useBlit then bufferHeight dstBuffer else renderHeight dstBuffer)
      in [StencilMaskSet 0xFF]
         @ (if useBlit then
              [BlitFramebuffer (Some (TempFBO e w h FBO_8888)) 0 0 w h (fbo dstBuffer) 0 0
                 (renderWidth dstBuffer) (renderHeight dstBuffer) FB_STENCIL_BIT FB_BLIT_NEAREST]
            else [])
         @ [RebindFramebuffer])"

text \<open>The part of the function after the program has been created or bound.\<close>

definition upload_planes ::
  "env \<Rightarrow> FramebufferManagerGLES \<Rightarrow> VirtualFramebuffer \<Rightarrow> nat \<Rightarrow> u8 \<Rightarrow> int
     \<Rightarrow> (bool \<times> FramebufferManagerGLES) option" where
  "upload_planes e st dstBuffer src usedBits values =
     (let st1 = emit (upload_prologue e dstBuffer src) st;
          uv = PixelTexture_uv e (format dstBuffer) (fb_stride dstBuffer)
                 (bufferWidth dstBuffer) (bufferHeight dstBuffer);
          u_stencilValue = glsl_uniform_loc e (stencilUploadProgram st) ''u_stencilValue''
      in case draw_loop dstBuffer u_stencilValue uv usedBits values 1 (issued st1) of
           None \<Rightarrow> None
         | Some cs \<Rightarrow> Some (True, emit (upload_epilogue e dstBuffer) (st1\<lparr>issued := cs\<rparr>)))"

text \<open>
  The function. The result is \<open>None\<close> when it does not return, otherwise the returned flag
  and the state after the call. The parameter \<open>size\<close> (here \<open>sz\<close>) is not used by the source.
\<close>

definition NotifyStencilUpload ::
  "env \<Rightarrow> FramebufferManagerGLES \<Rightarrow> u32 \<Rightarrow> int \<Rightarrow> bool
     \<Rightarrow> (bool \<times> FramebufferManagerGLES) option" where
  "NotifyStencilUpload e st addr sz skipZero =
     (if \<not> MayIntersectFramebuffer e addr then Some (False, st)
      else
        (case find_dstBuffer (MaskedEqual e) addr (vfbs st) None of
           None \<Rightarrow> Some (False, st)
         | Some dstBuffer \<Rightarrow>
             (case GetPointer e addr of
                None \<Rightarrow> Some (False, st)
              | Some src \<Rightarrow>
                  (case stencil_switch (\<lambda>j. memory e (src + j)) dstBuffer of
                     None \<Rightarrow> Some (False, st)
                   | Some (usedBits, values) \<Rightarrow>
                       if usedBits = 0 then
                         (if skipZero then Some (False, st)
                          else Some (True, emit zero_clear st))
                       else
                         upload_planes e (bind_stencilUploadProgram e st) dstBuffer src
                           usedBits values))))"


subsection \<open>Notions the statements use\<close>

text \<open>The stencil bit width of a format: 1, 4 and 8 for the three stencil-bearing formats.\<close>

definition stencil_bit_width :: "GEBufferFormat \<Rightarrow> nat" where
  "stencil_bit_width f =
     (case f of GE_FORMAT_5551 \<Rightarrow> 1 | GE_FORMAT_4444 \<Rightarrow> 4 | GE_FORMAT_8888 \<Rightarrow> 8 | _ \<Rightarrow> 0)"

text \<open>The calls a call of the function added to the ones issued before it.\<close>

definition new_calls :: "FramebufferManagerGLES \<Rightarrow> FramebufferManagerGLES \<Rightarrow> call list" where
  "new_calls st st' = drop (length (issued st)) (issued st')"

text \<open>
  Concrete inputs: a 2x1 render target at address 0x04000000, an environment whose memory
  and compiler are given, and a manager that tracks this one target and has no program yet.
\<close>

definition ex_vfb :: "GEBufferFormat \<Rightarrow> VirtualFramebuffer" where
  "ex_vfb f = \<lparr>fb_address = 0x04000000, fb_stride = 2, width = 2, height = 1,
     renderWidth = 2, renderHeight = 1, bufferWidth = 2, bufferHeight = 1,
     format = f, fbo = Some 7\<rparr>"

definition ex_env :: "(nat \<Rightarrow> u8) \<Rightarrow> GLSLProgram option \<Rightarrow> env" where
  "ex_env mem compiled = \<lparr>MayIntersectFramebuffer = (\<lambda>a. True),
     MaskedEqual = (\<lambda>a b. a AND 0x03FFFFFF = b AND 0x03FFFFFF),
     GetPointer = (\<lambda>a. if a = 0x04000000 then Some 0 else None),
     memory = mem, IsGLES = True,
     glsl_create_source = (\<lambda>vs fs. (compiled, ''error'')),
     glsl_uniform_loc = (\<lambda>p n. case p of None \<Rightarrow> - 1 | Some q \<Rightarrow> 0),
     Supports_FRAMEBUFFER_BLIT = False,
     TempFBO = (\<lambda>w h f. 1),
     PixelTexture_uv = (\<lambda>f s w h. (1, 1))\<rparr>"

definition ex_manager :: "GEBufferFormat \<Rightarrow> FramebufferManagerGLES" where
  "ex_manager f = \<lparr>vfbs = [ex_vfb f], stencilUploadProgram = None, issued = []\<rparr>"

text \<open>Memory with the single byte \<open>v\<close> at offset \<open>a\<close>, and zero elsewhere.\<close>

definition one_byte :: "nat \<Rightarrow> u8 \<Rightarrow> nat \<Rightarrow> u8" where
  "one_byte a v = (\<lambda>j. if j = a then v else 0)"

text \<open>Memory with the bytes \<open>v\<close> at offset \<open>a\<close> and \<open>w\<close> at offset \<open>b\<close>, and zero elsewhere.\<close>

definition two_bytes :: "nat \<Rightarrow> u8 \<Rightarrow> nat \<Rightarrow> u8 \<Rightarrow> nat \<Rightarrow> u8" where
  "two_bytes a v b w = (\<lambda>j. if j = a then v else if j = b then w else 0)"

section \<open>Properties of the scanners\<close>

subsection \<open>Bits of the loaded words and pixels\<close>

lemma bit_u8_bound: "bit (b :: u8) n \<Longrightarrow> n < 8"
  by (drule bit_imp_le_length) simp

lemma bit_u16_bound: "bit (b :: u16) n \<Longrightarrow> n < 16"
  by (drule bit_imp_le_length) simp

lemma bit_read_u32:
  "bit (read_u32 ptr8 i) n \<longleftrightarrow>
     (n < 8 \<and> bit (ptr8 (4 * i)) n) \<or>
     (8 \<le> n \<and> n < 16 \<and> bit (ptr8 (4 * i + 1)) (n - 8)) \<or>
     (16 \<le> n \<and> n < 24 \<and> bit (ptr8 (4 * i + 2)) (n - 16)) \<or>
     (24 \<le> n \<and> n < 32 \<and> bit (ptr8 (4 * i + 3)) (n - 24))"
  unfolding read_u32_def
  by (auto simp add: bit_simps dest: bit_u8_bound)

lemma bit_pixel16:
  "bit (pixel16 ptr8 k) n \<longleftrightarrow>
     (n < 8 \<and> bit (ptr8 (2 * k)) n) \<or>
     (8 \<le> n \<and> n < 16 \<and> bit (ptr8 (2 * k + 1)) (n - 8))"
  unfolding pixel16_def
  by (auto simp add: bit_simps dest: bit_u8_bound)

lemma bit_read_u32_pixel16:
  "bit (read_u32 ptr8 i) n \<longleftrightarrow>
     (n < 16 \<and> bit (pixel16 ptr8 (2 * i)) n) \<or>
     (16 \<le> n \<and> n < 32 \<and> bit (pixel16 ptr8 (2 * i + 1)) (n - 16))"
proof -
  have a: "2 * (2 * i) = 4 * i" "2 * (2 * i + 1) = 4 * i + 2"
          "2 * (2 * i) + 1 = 4 * i + 1" "2 * (2 * i + 1) + 1 = 4 * i + 3"
    by simp_all
  have b: "4 * i + 3 = Suc (Suc (Suc (4 * i)))" by simp
  consider "n < 8" | "8 \<le> n" "n < 16" | "16 \<le> n" "n < 24" | "24 \<le> n" "n < 32" | "32 \<le> n"
    by linarith
  then show ?thesis
    by cases (auto simp add: bit_read_u32 bit_pixel16 b)
qed

lemma bit_u32_bound: "bit (b :: u32) n \<Longrightarrow> n < 32"
  by (drule bit_imp_le_length) simp


lemma and_two_bits_eq_0:
  "(w :: u32) AND (push_bit a 1 OR push_bit b 1) = 0 \<longleftrightarrow> \<not> bit w a \<and> \<not> bit w b"
  unfolding bit_eq_iff
  by (auto simp add: bit_simps dest: bit_u32_bound)

lemma mask_80008000: "(w :: u32) AND 0x80008000 \<noteq> 0 \<longleftrightarrow> bit w 15 \<or> bit w 31"
  using and_two_bits_eq_0 [of w 15 31] by simp

lemma hit_5551:
  "read_u32 ptr8 i AND 0x80008000 \<noteq> 0 \<longleftrightarrow>
     stencil5551 (pixel16 ptr8 (2 * i)) \<or> stencil5551 (pixel16 ptr8 (2 * i + 1))"
  unfolding mask_80008000 bit_read_u32_pixel16 stencil5551_def
  by simp

lemma StencilBits8888_loop_bit:
  "bit (StencilBits8888_loop ptr8 n i bits) j \<longleftrightarrow>
     bit bits j \<or> (\<exists>k. i \<le> k \<and> k < n \<and> bit (read_u32 ptr8 k) j)"
proof (induction ptr8 n i bits rule: StencilBits8888_loop.induct)
  case (1 ptr8 n i bits)
  show ?case
  proof (cases "i < n")
    case True
    have "(\<exists>k. i \<le> k \<and> k < n \<and> bit (read_u32 ptr8 k) j) \<longleftrightarrow>
          bit (read_u32 ptr8 i) j \<or> (\<exists>k. Suc i \<le> k \<and> k < n \<and> bit (read_u32 ptr8 k) j)"
      using True by (metis Suc_leI le_eq_less_or_eq Suc_le_lessD order_refl)
    moreover have "StencilBits8888_loop ptr8 n i bits
        = StencilBits8888_loop ptr8 n (Suc i) (bits OR read_u32 ptr8 i)"
      by (subst StencilBits8888_loop.simps) (simp add: True)
    ultimately show ?thesis
      using 1 [OF True] by (simp only: bit_or_iff) blast
  next
    case False
    then show ?thesis by (subst StencilBits8888_loop.simps) auto
  qed
qed


lemma StencilBits4444_loop_bit:
  "bit (StencilBits4444_loop ptr8 n i bits) j \<longleftrightarrow>
     bit bits j \<or> (\<exists>k. i \<le> k \<and> k < n \<and> bit (read_u32 ptr8 k) j)"
proof (induction ptr8 n i bits rule: StencilBits4444_loop.induct)
  case (1 ptr8 n i bits)
  show ?case
  proof (cases "i < n")
    case True
    have "(\<exists>k. i \<le> k \<and> k < n \<and> bit (read_u32 ptr8 k) j) \<longleftrightarrow>
          bit (read_u32 ptr8 i) j \<or> (\<exists>k. Suc i \<le> k \<and> k < n \<and> bit (read_u32 ptr8 k) j)"
      using True by (metis Suc_leI le_eq_less_or_eq Suc_le_lessD order_refl)
    moreover have "StencilBits4444_loop ptr8 n i bits
        = StencilBits4444_loop ptr8 n (Suc i) (bits OR read_u32 ptr8 i)"
      by (subst StencilBits4444_loop.simps) (simp add: True)
    ultimately show ?thesis
      using 1 [OF True] by (simp only: bit_or_iff) blast
  next
    case False
    then show ?thesis by (subst StencilBits4444_loop.simps) auto
  qed
qed

lemma StencilBits5551_loop_nohit:
  "(\<forall>k. i \<le> k \<and> k < n \<longrightarrow> \<not> hit5551 ptr8 k) \<Longrightarrow>
     StencilBits5551_loop ptr8 n i loaded = (0, loaded @ [i..<n])"
proof (induction ptr8 n i loaded rule: StencilBits5551_loop.induct)
  case (1 ptr8 n i loaded)
  show ?case
  proof (cases "i < n")
    case True
    then have nh: "\<not> (read_u32 ptr8 i AND 0x80008000 \<noteq> 0)"
      using 1(2) by (simp add: hit5551_def)
    have "StencilBits5551_loop ptr8 n (Suc i) (loaded @ [i]) = (0, (loaded @ [i]) @ [Suc i..<n])"
      using 1(1) [OF True nh] 1(2) by simp
    then show ?thesis
      using True nh by (subst StencilBits5551_loop.simps) (simp add: upt_conv_Cons)
  next
    case False
    then show ?thesis by (subst StencilBits5551_loop.simps) simp
  qed
qed

lemma StencilBits5551_loop_hit:
  "i \<le> w \<Longrightarrow> w < n \<Longrightarrow> hit5551 ptr8 w \<Longrightarrow>
   (\<forall>k. i \<le> k \<and> k < w \<longrightarrow> \<not> hit5551 ptr8 k) \<Longrightarrow>
     StencilBits5551_loop ptr8 n i loaded = (1, loaded @ [i..<Suc w])"
proof (induction ptr8 n i loaded rule: StencilBits5551_loop.induct)
  case (1 ptr8 n i loaded)
  have lt: "i < n" using 1(2,3) by simp
  show ?case
  proof (cases "i = w")
    case True
    then show ?thesis using lt 1(4)
      by (subst StencilBits5551_loop.simps) (simp add: hit5551_def)
  next
    case False
    then have iw: "i < w" using 1(2) by simp
    then have nh: "\<not> (read_u32 ptr8 i AND 0x80008000 \<noteq> 0)"
      using 1(5) by (simp add: hit5551_def)
    have "StencilBits5551_loop ptr8 n (Suc i) (loaded @ [i]) = (1, (loaded @ [i]) @ [Suc i..<Suc w])"
      using 1(1) [OF lt nh] iw 1(3,4,5) by simp
    then show ?thesis
      using lt nh iw by (subst StencilBits5551_loop.simps) (simp add: upt_conv_Cons)
  qed
qed

lemma pixels_words16:
  assumes "even n"
  shows "(\<exists>k<n. P (pixel16 ptr8 k)) \<longleftrightarrow>
         (\<exists>w<n div 2. P (pixel16 ptr8 (2 * w)) \<or> P (pixel16 ptr8 (2 * w + 1)))"
proof
  assume "\<exists>k<n. P (pixel16 ptr8 k)"
  then obtain k where k: "k < n" "P (pixel16 ptr8 k)" by blast
  have w: "k div 2 < n div 2" using k(1) assms by (auto elim!: evenE)
  have "k = 2 * (k div 2) \<or> k = 2 * (k div 2) + 1" by presburger
  then have "P (pixel16 ptr8 (2 * (k div 2))) \<or> P (pixel16 ptr8 (2 * (k div 2) + 1))"
    using k(2) by metis
  with w show "\<exists>w<n div 2. P (pixel16 ptr8 (2 * w)) \<or> P (pixel16 ptr8 (2 * w + 1))"
    by blast
next
  assume "\<exists>w<n div 2. P (pixel16 ptr8 (2 * w)) \<or> P (pixel16 ptr8 (2 * w + 1))"
  then obtain w where w: "w < n div 2" "P (pixel16 ptr8 (2 * w)) \<or> P (pixel16 ptr8 (2 * w + 1))"
    by blast
  have "2 * w < n" "2 * w + 1 < n" using w(1) assms by (auto elim!: evenE)
  with w(2) show "\<exists>k<n. P (pixel16 ptr8 k)" by blast
qed

subsection \<open>What each scanner returns\<close>

lemma bit_alpha8888: "bit (alpha8888 px) j \<longleftrightarrow> j < 8 \<and> bit px (24 + j)"
  by (simp add: alpha8888_def bit_ucast_iff bit_drop_bit_eq)

lemma bit_StencilBits8888:
  "bit (StencilBits8888 ptr8 numPixels) j \<longleftrightarrow>
     (\<exists>k<unat numPixels. bit (alpha8888 (pixel32 ptr8 k)) j)"
proof -
  have "bit (StencilBits8888 ptr8 numPixels) j \<longleftrightarrow>
      j < 8 \<and> bit (StencilBits8888_loop ptr8 (unat numPixels) 0 0) (24 + j)"
    by (simp add: StencilBits8888_def bit_ucast_iff bit_drop_bit_eq)
  also have "\<dots> \<longleftrightarrow> j < 8 \<and> (\<exists>k<unat numPixels. bit (read_u32 ptr8 k) (24 + j))"
    by (simp add: StencilBits8888_loop_bit)
  also have "\<dots> \<longleftrightarrow> (\<exists>k<unat numPixels. bit (alpha8888 (pixel32 ptr8 k)) j)"
    by (auto simp add: bit_alpha8888 pixel32_def)
  finally show ?thesis .
qed

lemma u8_eq_0_iff: "(x :: u8) = 0 \<longleftrightarrow> (\<forall>j. \<not> bit x j)"
proof
  assume "x = 0"
  then show "\<forall>j. \<not> bit x j" by simp
next
  assume a: "\<forall>j. \<not> bit x j"
  show "x = 0" by (rule bit_eqI) (simp add: a)
qed

lemma StencilBits8888_eq_0:
  "StencilBits8888 ptr8 numPixels = 0 \<longleftrightarrow>
     (\<forall>k<unat numPixels. alpha8888 (pixel32 ptr8 k) = 0)"
proof -
  have "StencilBits8888 ptr8 numPixels = 0 \<longleftrightarrow>
      (\<forall>j. \<not> (\<exists>k<unat numPixels. bit (alpha8888 (pixel32 ptr8 k)) j))"
    by (simp only: u8_eq_0_iff [of "StencilBits8888 ptr8 numPixels"] bit_StencilBits8888)
  also have "\<dots> \<longleftrightarrow> (\<forall>k<unat numPixels. \<forall>j. \<not> bit (alpha8888 (pixel32 ptr8 k)) j)"
    by blast
  also have "\<dots> \<longleftrightarrow> (\<forall>k<unat numPixels. alpha8888 (pixel32 ptr8 k) = 0)"
    by (simp only: u8_eq_0_iff [symmetric])
  finally show ?thesis .
qed

lemma StencilBits8888_single:
  assumes "k < unat numPixels" "alpha8888 (pixel32 ptr8 k) = a"
    and "\<forall>k'<unat numPixels. k' \<noteq> k \<longrightarrow> alpha8888 (pixel32 ptr8 k') = 0"
  shows "StencilBits8888 ptr8 numPixels = a"
proof (rule bit_eqI)
  fix j
  have "k' = k" if "bit (alpha8888 (pixel32 ptr8 k')) j" "k' < unat numPixels" for k'
  proof (rule ccontr)
    assume "k' \<noteq> k"
    then have "alpha8888 (pixel32 ptr8 k') = 0" using assms(3) that(2) by blast
    then show False using that(1) by simp
  qed
  then have only: "\<And>k'. k' < unat numPixels \<Longrightarrow> bit (alpha8888 (pixel32 ptr8 k')) j \<Longrightarrow> bit a j"
    using assms(2) by blast
  show "bit (StencilBits8888 ptr8 numPixels) j \<longleftrightarrow> bit a j"
  proof
    assume "bit (StencilBits8888 ptr8 numPixels) j"
    then obtain k' where "k' < unat numPixels" "bit (alpha8888 (pixel32 ptr8 k')) j"
      unfolding bit_StencilBits8888 by blast
    then show "bit a j" by (rule only)
  next
    assume "bit a j"
    then have "k < unat numPixels \<and> bit (alpha8888 (pixel32 ptr8 k)) j"
      using assms(1,2) by simp
    then show "bit (StencilBits8888 ptr8 numPixels) j"
      unfolding bit_StencilBits8888 by (rule exI)
  qed
qed

lemma bit_alpha4444: "bit (alpha4444 px) j \<longleftrightarrow> j < 4 \<and> bit px (12 + j)"
  by (auto simp add: alpha4444_def bit_simps dest: bit_u16_bound)

lemma bit_and_mask_u32: "bit ((x :: u32) AND mask m) j \<longleftrightarrow> j < m \<and> bit x j"
  by (auto simp add: bit_simps dest: bit_u32_bound)

lemma bit_and_0xF: "bit ((x :: u32) AND 0xF) j \<longleftrightarrow> j < 4 \<and> bit x j"
  using bit_and_mask_u32 [of x 4 j] by (simp add: mask_eq_exp_minus_1)

lemma bit_merge4444:
  "bit (ucast ((drop_bit 12 bits AND 0xF) OR drop_bit 28 (bits :: u32)) :: u8) j \<longleftrightarrow>
     j < 4 \<and> (bit bits (12 + j) \<or> bit bits (28 + j))"
proof -
  have "bit (drop_bit 28 bits) j \<longleftrightarrow> j < 4 \<and> bit bits (28 + j)"
    by (auto simp add: bit_drop_bit_eq dest: bit_u32_bound)
  moreover have "bit (drop_bit 12 bits AND 0xF) j \<longleftrightarrow> j < 4 \<and> bit bits (12 + j)"
    by (simp add: bit_and_0xF bit_drop_bit_eq)
  ultimately show ?thesis
    by (simp only: bit_ucast_iff bit_or_iff) auto
qed

lemma bit_StencilBits4444_words:
  "bit (StencilBits4444 ptr8 numPixels) j \<longleftrightarrow>
     j < 4 \<and> (\<exists>w<unat numPixels div 2.
        bit (read_u32 ptr8 w) (12 + j) \<or> bit (read_u32 ptr8 w) (28 + j))"
  unfolding StencilBits4444_def Let_def bit_merge4444 StencilBits4444_loop_bit unat_div
  by auto

lemma bit_StencilBits4444:
  assumes "even (unat numPixels)"
  shows "bit (StencilBits4444 ptr8 numPixels) j \<longleftrightarrow>
     (\<exists>k<unat numPixels. bit (alpha4444 (pixel16 ptr8 k)) j)"
proof -
  have "(\<exists>k<unat numPixels. bit (alpha4444 (pixel16 ptr8 k)) j) \<longleftrightarrow>
        (\<exists>w<unat numPixels div 2. bit (alpha4444 (pixel16 ptr8 (2 * w))) j
            \<or> bit (alpha4444 (pixel16 ptr8 (2 * w + 1))) j)"
    by (rule pixels_words16 [OF assms, where P = "\<lambda>px. bit (alpha4444 px) j"])
  also have "\<dots> \<longleftrightarrow> j < 4 \<and> (\<exists>w<unat numPixels div 2.
        bit (read_u32 ptr8 w) (12 + j) \<or> bit (read_u32 ptr8 w) (28 + j))"
    by (auto simp add: bit_alpha4444 bit_read_u32_pixel16)
  finally show ?thesis
    by (simp add: bit_StencilBits4444_words)
qed

lemma first_hit:
  assumes "\<exists>w<n. hit5551 ptr8 w"
  obtains w where "w < n" "hit5551 ptr8 w" "\<forall>v<w. \<not> hit5551 ptr8 v"
proof -
  define w where "w = (LEAST w. hit5551 ptr8 w)"
  from assms obtain w0 where w0: "w0 < n" "hit5551 ptr8 w0" by blast
  have 1: "hit5551 ptr8 w" unfolding w_def using w0(2) by (rule LeastI)
  have "w \<le> w0" unfolding w_def using w0(2) by (rule Least_le)
  then have 2: "w < n" using w0(1) by simp
  have 3: "\<forall>v<w. \<not> hit5551 ptr8 v"
    unfolding w_def using not_less_Least by blast
  from that 1 2 3 show thesis by blast
qed

lemma StencilBits5551_words:
  "StencilBits5551 ptr8 numPixels =
     (if \<exists>w<unat numPixels div 2. hit5551 ptr8 w then 1 else 0)"
proof (cases "\<exists>w<unat numPixels div 2. hit5551 ptr8 w")
  case True
  then obtain w where w: "w < unat numPixels div 2" "hit5551 ptr8 w"
    "\<forall>v<w. \<not> hit5551 ptr8 v"
    by (rule first_hit)
  have "StencilBits5551_loop ptr8 (unat numPixels div 2) 0 [] = (1, [] @ [0..<Suc w])"
    by (rule StencilBits5551_loop_hit) (use w in auto)
  with True show ?thesis
    by (simp add: StencilBits5551_def StencilBits5551_run_def unat_div)
next
  case False
  then have "StencilBits5551_loop ptr8 (unat numPixels div 2) 0 []
      = (0, [] @ [0..<unat numPixels div 2])"
    by (intro StencilBits5551_loop_nohit) auto
  with False show ?thesis
    by (simp add: StencilBits5551_def StencilBits5551_run_def unat_div)
qed

lemma StencilBits5551_pixels:
  assumes "even (unat numPixels)"
  shows "StencilBits5551 ptr8 numPixels =
     (if \<exists>k<unat numPixels. stencil5551 (pixel16 ptr8 k) then 1 else 0)"
  unfolding StencilBits5551_words pixels_words16 [OF assms, where P = stencil5551]
  by (simp add: hit5551_def hit_5551)

section \<open>Properties of the upload\<close>

subsection \<open>The draw loop and the calls around it\<close>

lemma plane_test: "uint (usedBits :: u8) AND 2 ^ k = 0 \<longleftrightarrow> \<not> bit usedBits k"
  by (auto simp add: and_exp_eq_0_iff_not_bit bit_uint_iff dest: bit_u8_bound)

lemma draw_loop_pow2:
  "k \<le> K \<Longrightarrow>
   draw_loop dst u uv usedBits (2 ^ K) (2 ^ k) cs =
     Some (cs @ concat (map (\<lambda>j. plane_calls dst u uv (2 ^ j)) (filter (bit usedBits) [k..<K])))"
proof (induction "K - k" arbitrary: k cs)
  case 0
  then have "k = K" by simp
  then show ?case by (subst draw_loop.simps) simp
next
  case (Suc n)
  then have kK: "k < K" and n: "n = K - Suc k" and le: "Suc k \<le> K" by simp_all
  have lt: "(2 :: int) ^ k < 2 ^ K" using kK by simp
  have dbl: "(2 :: int) ^ k + 2 ^ k = 2 ^ Suc k" by simp
  have upt: "[k..<K] = k # [Suc k..<K]" using kK by (simp add: upt_conv_Cons)
  show ?case
  proof (cases "bit usedBits k")
    case True
    then have "draw_loop dst u uv usedBits (2 ^ K) (2 ^ k) cs =
        draw_loop dst u uv usedBits (2 ^ K) (2 ^ Suc k) (cs @ plane_calls dst u uv (2 ^ k))"
      by (subst draw_loop.simps) (simp add: lt plane_test)
    then show ?thesis
      using Suc(1) [OF n le] True by (simp add: upt)
  next
    case False
    then have "draw_loop dst u uv usedBits (2 ^ K) (2 ^ k) cs =
        draw_loop dst u uv usedBits (2 ^ K) (2 ^ Suc k) cs"
      by (subst draw_loop.simps) (simp add: lt plane_test)
    then show ?thesis
      using Suc(1) [OF n le] False by (simp add: upt)
  qed
qed

lemma find_dstBuffer_None:
  "find_dstBuffer me addr vs d = None \<longleftrightarrow>
     d = None \<and> (\<forall>vfb\<in>set vs. \<not> me (fb_address vfb) addr)"
  by (induction vs arbitrary: d) auto

lemma find_dstBuffer_Some:
  "find_dstBuffer me addr vs None = Some dst \<Longrightarrow> dst \<in> set vs \<and> me (fb_address dst) addr"
proof -
  have "find_dstBuffer me addr vs d = Some dst \<Longrightarrow>
      d = Some dst \<or> (dst \<in> set vs \<and> me (fb_address dst) addr)" for d
    by (induction vs arbitrary: d) (auto split: if_splits)
  then show "find_dstBuffer me addr vs None = Some dst \<Longrightarrow> dst \<in> set vs \<and> me (fb_address dst) addr"
    by blast
qed

lemma upload_planes_pow2:
  "upload_planes e st dst src usedBits (2 ^ K) =
     Some (True, st\<lparr>issued := issued st @ upload_prologue e dst src
        @ concat (map (\<lambda>k. plane_calls dst
                     (glsl_uniform_loc e (stencilUploadProgram st) ''u_stencilValue'')
                     (PixelTexture_uv e (format dst) (fb_stride dst) (bufferWidth dst) (bufferHeight dst))
                     (2 ^ k))
             (filter (bit usedBits) [0..<K]))
        @ upload_epilogue e dst\<rparr>)"
  using draw_loop_pow2 [of 0 K dst _ _ usedBits]
  by (simp add: upload_planes_def Let_def emit_def)

lemma stencil_switch_values:
  assumes "stencil_switch src dst = Some (usedBits, values)" "usedBits \<noteq> 0"
  shows "values = 2 ^ stencil_bit_width (format dst)"
    and "format dst = GE_FORMAT_5551 \<or> format dst = GE_FORMAT_4444 \<or> format dst = GE_FORMAT_8888"
  using assms
  by (auto simp add: stencil_switch_def stencil_bit_width_def split: GEBufferFormat.splits)

lemma NotifyStencilUpload_planes:
  assumes "MayIntersectFramebuffer e addr"
    and "find_dstBuffer (MaskedEqual e) addr (vfbs st) None = Some dst"
    and "GetPointer e addr = Some src"
    and "stencil_switch (\<lambda>j. memory e (src + j)) dst = Some (usedBits, values)"
    and "usedBits \<noteq> 0"
  shows "NotifyStencilUpload e st addr sz skipZero =
     Some (True, (bind_stencilUploadProgram e st)\<lparr>issued :=
        issued (bind_stencilUploadProgram e st) @ upload_prologue e dst src
        @ concat (map (\<lambda>k. plane_calls dst
                     (glsl_uniform_loc e (stencilUploadProgram (bind_stencilUploadProgram e st))
                        ''u_stencilValue'')
                     (PixelTexture_uv e (format dst) (fb_stride dst) (bufferWidth dst) (bufferHeight dst))
                     (2 ^ k))
             (filter (bit usedBits) [0..<stencil_bit_width (format dst)]))
        @ upload_epilogue e dst\<rparr>)"
proof -
  have v: "values = 2 ^ stencil_bit_width (format dst)"
    using assms(4,5) by (rule stencil_switch_values)
  have "NotifyStencilUpload e st addr sz skipZero =
      upload_planes e (bind_stencilUploadProgram e st) dst src usedBits values"
    using assms by (simp add: NotifyStencilUpload_def)
  then show ?thesis
    unfolding v upload_planes_pow2 .
qed

lemma bind_issued:
  "\<exists>bc. issued (bind_stencilUploadProgram e st) = issued st @ bc
     \<and> (\<forall>c\<in>set bc. \<not> is_draw c \<and> \<not> is_stencil_mask c)"
  by (auto simp add: bind_stencilUploadProgram_def emit_def Let_def
      split: option.splits prod.splits)

lemma bind_vfbs: "vfbs (bind_stencilUploadProgram e st) = vfbs st"
  by (auto simp add: bind_stencilUploadProgram_def emit_def Let_def
      split: option.splits prod.splits)

lemma prologue_no_draw:
  "c \<in> set (upload_prologue e dst src) \<Longrightarrow> \<not> is_draw c \<and> \<not> is_stencil_mask c"
  by (auto simp add: upload_prologue_def Let_def split: option.splits if_splits)

lemma epilogue_no_draw: "c \<in> set (upload_epilogue e dst) \<Longrightarrow> \<not> is_draw c"
  by (auto simp add: upload_epilogue_def Let_def split: option.splits if_splits)

lemma epilogue_mask:
  "\<exists>post. upload_epilogue e dst = StencilMaskSet 0xFF # post
     \<and> (\<forall>c\<in>set post. \<not> is_draw c \<and> \<not> is_stencil_mask c)"
  by (auto simp add: upload_epilogue_def Let_def split: option.splits if_splits)

lemma plane_calls_one_draw: "length (filter is_draw (plane_calls dst u uv i)) = 1"
  by (simp add: plane_calls_def)

lemma draws_concat:
  "(\<And>k. length (filter is_draw (f k)) = 1) \<Longrightarrow>
     length (filter is_draw (concat (map f ks))) = length ks"
  by (induction ks) simp_all

lemma no_draw_filter: "(\<And>c. c \<in> set cs \<Longrightarrow> \<not> is_draw c) \<Longrightarrow> filter is_draw cs = []"
  by (induction cs) simp_all

lemma set_bits_count:
  "length (filter (bit (usedBits :: u8)) [0..<K]) = card {k. k < K \<and> bit usedBits k}"
proof -
  have "length (filter (bit usedBits) [0..<K]) = card ({k. bit usedBits k} \<inter> set [0..<K])"
    by (rule distinct_length_filter) simp
  also have "{k. bit usedBits k} \<inter> set [0..<K] = {k. k < K \<and> bit usedBits k}"
    by auto
  finally show ?thesis .
qed

lemma set_bits_le: "length (filter P [0..<K]) \<le> K"
  using length_filter_le [of P "[0..<K]"] by simp

section \<open>The claims about the scanners\<close>

lemma bit_fold_or:
  "bit (fold (\<lambda>k acc. acc OR f k) ks (a :: u8)) j \<longleftrightarrow> bit a j \<or> (\<exists>k\<in>set ks. bit (f k) j)"
  by (induction ks arbitrary: a) (auto simp add: bit_or_iff)

lemma u8_eq_fold_or:
  assumes "\<And>j. bit (x :: u8) j \<longleftrightarrow> (\<exists>k<n. bit (f k) j)"
  shows "x = fold (\<lambda>k acc. acc OR f k) [0..<n] 0"
  by (rule bit_eqI) (simp add: assms bit_fold_or Bex_def)

text \<open>
  Claim C2. For the 8888 format the scanner returns the bitwise OR of the top (alpha) byte of
  every 32-bit pixel of the region: bit \<open>j\<close> of the result is set exactly when some pixel has
  alpha bit \<open>j\<close> set. The result is 0 exactly when every alpha byte is 0, and a region in
  which one pixel has alpha \<open>0b00100000\<close> and all others alpha 0 gives \<open>0x20\<close>. This holds for
  every pixel count, even or odd.
\<close>
theorem StencilBits8888_or_of_alpha:
  "(\<forall>j. bit (StencilBits8888 ptr8 numPixels) j \<longleftrightarrow>
         (\<exists>k<unat numPixels. bit (alpha8888 (pixel32 ptr8 k)) j))
   \<and> StencilBits8888 ptr8 numPixels =
       fold (\<lambda>k acc. acc OR alpha8888 (pixel32 ptr8 k)) [0..<unat numPixels] 0
   \<and> (StencilBits8888 ptr8 numPixels = 0 \<longleftrightarrow>
        (\<forall>k<unat numPixels. alpha8888 (pixel32 ptr8 k) = 0))
   \<and> (\<forall>k<unat numPixels.
         alpha8888 (pixel32 ptr8 k) = 0x20 \<and>
         (\<forall>k'<unat numPixels. k' \<noteq> k \<longrightarrow> alpha8888 (pixel32 ptr8 k') = 0)
         \<longrightarrow> StencilBits8888 ptr8 numPixels = 0x20)"
proof (intro conjI allI impI)
  fix j
  show "bit (StencilBits8888 ptr8 numPixels) j \<longleftrightarrow>
         (\<exists>k<unat numPixels. bit (alpha8888 (pixel32 ptr8 k)) j)"
    by (rule bit_StencilBits8888)
next
  show "StencilBits8888 ptr8 numPixels =
       fold (\<lambda>k acc. acc OR alpha8888 (pixel32 ptr8 k)) [0..<unat numPixels] 0"
    by (rule u8_eq_fold_or) (rule bit_StencilBits8888)
next
  show "StencilBits8888 ptr8 numPixels = 0 \<longleftrightarrow>
        (\<forall>k<unat numPixels. alpha8888 (pixel32 ptr8 k) = 0)"
    by (rule StencilBits8888_eq_0)
next
  fix k
  assume "k < unat numPixels"
    and "alpha8888 (pixel32 ptr8 k) = 0x20 \<and>
         (\<forall>k'<unat numPixels. k' \<noteq> k \<longrightarrow> alpha8888 (pixel32 ptr8 k') = 0)"
  then show "StencilBits8888 ptr8 numPixels = 0x20"
    using StencilBits8888_single [of k numPixels ptr8 "0x20"] by blast
qed

lemma ex_alpha8888:
  "alpha8888 (pixel32 (one_byte 7 0x20) k) = (if k = 1 then 0x20 else 0)"
proof -
  have "4 * k + 3 = 7 \<longleftrightarrow> k = 1" "4 * k \<noteq> 7" "4 * k + 1 \<noteq> 7" "4 * k + 2 \<noteq> 7"
    by presburger+
  then show ?thesis
    by (simp add: alpha8888_def pixel32_def read_u32_def one_byte_def)
qed

theorem StencilBits8888_or_of_alpha_witness:
  "(1 :: nat) < unat (2 :: u32)
   \<and> alpha8888 (pixel32 (one_byte 7 0x20) 1) = 0x20
   \<and> alpha8888 (pixel32 (one_byte 7 0x20) 0) = 0
   \<and> StencilBits8888 (one_byte 7 0x20) 2 = 0x20"
proof -
  have h1: "(1 :: nat) < unat (2 :: u32)" by simp
  have h2: "alpha8888 (pixel32 (one_byte 7 0x20) 1) = 0x20"
    by (simp add: ex_alpha8888)
  have h3: "\<forall>k'<unat (2 :: u32). k' \<noteq> 1 \<longrightarrow> alpha8888 (pixel32 (one_byte 7 0x20) k') = 0"
    by (simp add: ex_alpha8888)
  have "\<forall>k<unat (2 :: u32).
         alpha8888 (pixel32 (one_byte 7 0x20) k) = 0x20 \<and>
         (\<forall>k'<unat (2 :: u32). k' \<noteq> k \<longrightarrow> alpha8888 (pixel32 (one_byte 7 0x20) k') = 0)
         \<longrightarrow> StencilBits8888 (one_byte 7 0x20) 2 = 0x20"
    using StencilBits8888_or_of_alpha [of "one_byte 7 0x20" 2] by blast
  moreover have "alpha8888 (pixel32 (one_byte 7 0x20) 0) = 0"
    by (simp add: ex_alpha8888)
  ultimately show ?thesis using h1 h2 h3 by blast
qed

text \<open>
  Claim C3. For the 5551 format and an even pixel count the scanner returns 1 if some 16-bit
  pixel of the region has bit 15 set and 0 otherwise. It returns at the first 32-bit word in
  which either half has bit 15 set: when that word is word \<open>w\<close>, exactly the words
  \<open>0, \<dots>, w\<close> have been loaded, and when no pixel has the bit set all \<open>numPixels / 2\<close> words
  have been loaded.
\<close>
theorem StencilBits5551_any_set_early_exit:
  assumes "even (unat numPixels)"
  shows "StencilBits5551 ptr8 numPixels =
           (if \<exists>k<unat numPixels. stencil5551 (pixel16 ptr8 k) then 1 else 0)
    \<and> (\<forall>w<unat numPixels div 2.
          (stencil5551 (pixel16 ptr8 (2 * w)) \<or> stencil5551 (pixel16 ptr8 (2 * w + 1))) \<and>
          (\<forall>k<2 * w. \<not> stencil5551 (pixel16 ptr8 k))
          \<longrightarrow> StencilBits5551_run ptr8 numPixels = (1, [0..<Suc w]))
    \<and> ((\<forall>k<unat numPixels. \<not> stencil5551 (pixel16 ptr8 k))
          \<longrightarrow> StencilBits5551_run ptr8 numPixels = (0, [0..<unat numPixels div 2]))"
proof (intro conjI allI impI)
  show "StencilBits5551 ptr8 numPixels =
           (if \<exists>k<unat numPixels. stencil5551 (pixel16 ptr8 k) then 1 else 0)"
    using assms by (rule StencilBits5551_pixels)
next
  fix w
  assume w: "w < unat numPixels div 2"
    and h: "(stencil5551 (pixel16 ptr8 (2 * w)) \<or> stencil5551 (pixel16 ptr8 (2 * w + 1))) \<and>
          (\<forall>k<2 * w. \<not> stencil5551 (pixel16 ptr8 k))"
  have hit: "hit5551 ptr8 w" using h by (simp add: hit5551_def hit_5551)
  have "\<not> hit5551 ptr8 v" if "v < w" for v
  proof -
    have "2 * v < 2 * w" "2 * v + 1 < 2 * w" using that by simp_all
    then show ?thesis using h by (simp add: hit5551_def hit_5551)
  qed
  then have "StencilBits5551_loop ptr8 (unat numPixels div 2) 0 [] = (1, [] @ [0..<Suc w])"
    using w hit by (intro StencilBits5551_loop_hit) auto
  then show "StencilBits5551_run ptr8 numPixels = (1, [0..<Suc w])"
    by (simp add: StencilBits5551_run_def unat_div)
next
  assume none: "\<forall>k<unat numPixels. \<not> stencil5551 (pixel16 ptr8 k)"
  have "\<not> hit5551 ptr8 v" if "v < unat numPixels div 2" for v
  proof -
    have "2 * v < unat numPixels" "2 * v + 1 < unat numPixels"
      using that assms by (auto elim!: evenE)
    then show ?thesis using none by (simp add: hit5551_def hit_5551)
  qed
  then have "StencilBits5551_loop ptr8 (unat numPixels div 2) 0 []
      = (0, [] @ [0..<unat numPixels div 2])"
    by (intro StencilBits5551_loop_nohit) auto
  then show "StencilBits5551_run ptr8 numPixels = (0, [0..<unat numPixels div 2])"
    by (simp add: StencilBits5551_run_def unat_div)
qed

lemma ex_stencil5551:
  "stencil5551 (pixel16 (one_byte 7 0x80) k) \<longleftrightarrow> k = 3"
proof -
  have "2 * k + 1 = 7 \<longleftrightarrow> k = 3" "2 * k \<noteq> 7"
    by presburger+
  then show ?thesis
    by (simp add: stencil5551_def pixel16_def one_byte_def bit_simps)
qed

theorem StencilBits5551_any_set_early_exit_witness:
  "even (unat (8 :: u32))
   \<and> StencilBits5551 (one_byte 7 0x80) 8 = 1
   \<and> StencilBits5551_run (one_byte 7 0x80) 8 = (1, [0, 1])"
proof -
  have ev: "even (unat (8 :: u32))" by simp
  note t = StencilBits5551_any_set_early_exit [OF ev, of "one_byte 7 0x80"]
  have a: "\<exists>k<unat (8 :: u32). stencil5551 (pixel16 (one_byte 7 0x80) k)"
    by (simp add: ex_stencil5551)
  have b: "(1 :: nat) < unat (8 :: u32) div 2" by simp
  have c: "(stencil5551 (pixel16 (one_byte 7 0x80) (2 * 1))
              \<or> stencil5551 (pixel16 (one_byte 7 0x80) (2 * 1 + 1))) \<and>
          (\<forall>k<2 * 1. \<not> stencil5551 (pixel16 (one_byte 7 0x80) k))"
    by (simp add: ex_stencil5551)
  have "StencilBits5551 (one_byte 7 0x80) 8 = 1"
    using t a by simp
  moreover have "StencilBits5551_run (one_byte 7 0x80) 8 = (1, [0..<Suc 1])"
    using t b c by blast
  moreover have "[0..<Suc 1] = [0, 1]" by (simp add: upt_rec)
  ultimately show ?thesis using ev by simp
qed

lemma bit_3_or_C: "j < 4 \<Longrightarrow> bit (0x3 :: u8) j \<or> bit (0xC :: u8) j"
proof -
  assume "j < 4"
  then consider "j = 0" | "j = 1" | "j = 2" | "j = 3" by linarith
  then show ?thesis
    by cases (simp_all add: bit_numeral_rec numeral_2_eq_2 numeral_3_eq_3)
qed

lemma bit_0xF_u8: "bit (0xF :: u8) j \<longleftrightarrow> j < 4"
proof -
  have "bit (mask 4 :: u8) j \<longleftrightarrow> j < 4" by (auto simp add: bit_mask_iff)
  moreover have "(mask 4 :: u8) = 0xF" by (simp add: mask_eq_exp_minus_1)
  ultimately show ?thesis by simp
qed

text \<open>
  Claim C4. For the 4444 format and an even pixel count the scanner returns the bitwise OR of
  the top 4-bit alpha nibble of every 16-bit pixel of the region, wherever the pixels are: it
  merges bits 12-15 and bits 28-31 of the OR of all the 32-bit words into one 4-bit result. A
  region that holds a pixel with nibble \<open>0x3\<close> and a pixel with nibble \<open>0xC\<close> gives \<open>0xF\<close>.
\<close>
theorem StencilBits4444_union_of_nibbles:
  assumes "even (unat numPixels)"
  shows "(\<forall>j. bit (StencilBits4444 ptr8 numPixels) j \<longleftrightarrow>
            (\<exists>k<unat numPixels. bit (alpha4444 (pixel16 ptr8 k)) j))
    \<and> StencilBits4444 ptr8 numPixels =
        fold (\<lambda>k acc. acc OR alpha4444 (pixel16 ptr8 k)) [0..<unat numPixels] 0
    \<and> (\<forall>j. bit (StencilBits4444 ptr8 numPixels) j \<longleftrightarrow>
            j < 4 \<and> (\<exists>w<unat numPixels div 2.
               bit (read_u32 ptr8 w) (12 + j) \<or> bit (read_u32 ptr8 w) (28 + j)))
    \<and> ((\<exists>k<unat numPixels. alpha4444 (pixel16 ptr8 k) = 0x3) \<and>
        (\<exists>k<unat numPixels. alpha4444 (pixel16 ptr8 k) = 0xC)
        \<longrightarrow> StencilBits4444 ptr8 numPixels = 0xF)"
proof (intro conjI allI impI)
  fix j
  show "bit (StencilBits4444 ptr8 numPixels) j \<longleftrightarrow>
            (\<exists>k<unat numPixels. bit (alpha4444 (pixel16 ptr8 k)) j)"
    using assms by (rule bit_StencilBits4444)
next
  show "StencilBits4444 ptr8 numPixels =
        fold (\<lambda>k acc. acc OR alpha4444 (pixel16 ptr8 k)) [0..<unat numPixels] 0"
    by (rule u8_eq_fold_or) (rule bit_StencilBits4444 [OF assms])
next
  fix j
  show "bit (StencilBits4444 ptr8 numPixels) j \<longleftrightarrow>
            j < 4 \<and> (\<exists>w<unat numPixels div 2.
               bit (read_u32 ptr8 w) (12 + j) \<or> bit (read_u32 ptr8 w) (28 + j))"
    by (rule bit_StencilBits4444_words)
next
  assume mix: "(\<exists>k<unat numPixels. alpha4444 (pixel16 ptr8 k) = 0x3) \<and>
        (\<exists>k<unat numPixels. alpha4444 (pixel16 ptr8 k) = 0xC)"
  then obtain k3 kC where k3: "k3 < unat numPixels" "alpha4444 (pixel16 ptr8 k3) = 0x3"
    and kC: "kC < unat numPixels" "alpha4444 (pixel16 ptr8 kC) = 0xC"
    by blast
  show "StencilBits4444 ptr8 numPixels = 0xF"
  proof (rule bit_eqI)
    fix j
    show "bit (StencilBits4444 ptr8 numPixels) j \<longleftrightarrow> bit (0xF :: u8) j"
    proof
      assume "bit (StencilBits4444 ptr8 numPixels) j"
      then have "j < 4" by (simp add: bit_StencilBits4444_words)
      then show "bit (0xF :: u8) j" using bit_0xF_u8 [of j] by blast
    next
      assume "bit (0xF :: u8) j"
      then have "j < 4" using bit_0xF_u8 [of j] by blast
      then have "bit (0x3 :: u8) j \<or> bit (0xC :: u8) j" by (rule bit_3_or_C)
      then have "\<exists>k<unat numPixels. bit (alpha4444 (pixel16 ptr8 k)) j"
        using k3 kC by metis
      then show "bit (StencilBits4444 ptr8 numPixels) j"
        by (simp add: bit_StencilBits4444 [OF assms])
    qed
  qed
qed

lemma ex_alpha4444:
  "alpha4444 (pixel16 (two_bytes 3 0x30 7 0xC0) k) =
     (if k = 1 then 0x3 else if k = 3 then 0xC else 0)"
proof -
  have "2 * k + 1 = 7 \<longleftrightarrow> k = 3" "2 * k \<noteq> 7" "2 * k \<noteq> 3" "2 * k + 1 = 3 \<longleftrightarrow> k = 1"
    by presburger+
  then show ?thesis
    by (simp add: alpha4444_def pixel16_def two_bytes_def)
qed

theorem StencilBits4444_union_of_nibbles_witness:
  "even (unat (4 :: u32))
   \<and> alpha4444 (pixel16 (two_bytes 3 0x30 7 0xC0) 1) = 0x3
   \<and> alpha4444 (pixel16 (two_bytes 3 0x30 7 0xC0) 3) = 0xC
   \<and> StencilBits4444 (two_bytes 3 0x30 7 0xC0) 4 = 0xF"
proof -
  have ev: "even (unat (4 :: u32))" by simp
  note t = StencilBits4444_union_of_nibbles
    [OF ev, of "two_bytes 3 0x30 7 0xC0"]
  have a: "\<exists>k<unat (4 :: u32).
      alpha4444 (pixel16 (two_bytes 3 0x30 7 0xC0) k) = 0x3"
    by (rule exI [of _ 1]) (simp add: ex_alpha4444)
  have b: "\<exists>k<unat (4 :: u32).
      alpha4444 (pixel16 (two_bytes 3 0x30 7 0xC0) k) = 0xC"
    by (rule exI [of _ 3]) (simp add: ex_alpha4444)
  have "StencilBits4444 (two_bytes 3 0x30 7 0xC0) 4 = 0xF"
    using t a b by blast
  then show ?thesis using ev by (simp add: ex_alpha4444)
qed

section \<open>The claims about the upload\<close>

subsection \<open>Memory that is zero everywhere\<close>

lemma read_u32_zero: "(\<forall>j. src j = 0) \<Longrightarrow> read_u32 src i = 0"
  by (simp add: read_u32_def)

lemma zero_memory_scan:
  assumes "\<forall>j. src j = 0"
  shows "StencilBits5551 src n = 0" and "StencilBits4444 src n = 0" and "StencilBits8888 src n = 0"
proof -
  show "StencilBits5551 src n = 0"
    by (simp add: StencilBits5551_words hit5551_def read_u32_zero [OF assms])
  show "StencilBits4444 src n = 0"
    by (rule bit_eqI) (simp add: bit_StencilBits4444_words read_u32_zero [OF assms])
  show "StencilBits8888 src n = 0"
    by (simp add: StencilBits8888_eq_0 pixel32_def alpha8888_def read_u32_zero [OF assms])
qed

lemma ex_find: "find_dstBuffer (MaskedEqual (ex_env mem c)) 0x04000000 (vfbs (ex_manager f)) None
   = Some (ex_vfb f)"
  by (simp add: ex_env_def ex_manager_def ex_vfb_def)

lemma ex_env_simps:
  "MayIntersectFramebuffer (ex_env mem c) a"
  "GetPointer (ex_env mem c) 0x04000000 = Some 0"
  "memory (ex_env mem c) = mem"
  by (simp_all add: ex_env_def)

lemma ex_numPixels: "numPixels_of (ex_vfb f) = 2"
  by (simp add: numPixels_of_def ex_vfb_def)

text \<open>
  Claim C1. Take a call whose address resolves to a tracked target with a stencil-bearing
  format (5551, 4444 or 8888), whose memory pointer resolves, and whose scan gives
  \<open>usedBits = 0\<close>. With \<open>skipZero\<close> true the function returns false and the state is the one
  before the call. With \<open>skipZero\<close> false it returns true and issues exactly five calls: the
  scissor test is disabled, the colour mask is set to alpha only, the clear colour is set to
  (0, 0, 0, 0), the clear stencil value to 0, and the stencil and colour buffers are cleared.
  No shader is compiled or bound, and the cached program is unchanged.
\<close>
theorem NotifyStencilUpload_all_zero:
  assumes "MayIntersectFramebuffer e addr"
    and "find_dstBuffer (MaskedEqual e) addr (vfbs st) None = Some dstBuffer"
    and "format dstBuffer = GE_FORMAT_5551 \<or> format dstBuffer = GE_FORMAT_4444
           \<or> format dstBuffer = GE_FORMAT_8888"
    and "GetPointer e addr = Some src"
    and "stencil_switch (\<lambda>j. memory e (src + j)) dstBuffer = Some (0, values)"
  shows "NotifyStencilUpload e st addr sz True = Some (False, st)
    \<and> NotifyStencilUpload e st addr sz False =
        Some (True, st\<lparr>issued := issued st @
          [ScissorTestDisable, ColorMaskSet False False False True, GlClearColor 0 0 0 0,
           GlClearStencil 0, GlClear {GL_STENCIL_BUFFER_BIT, GL_COLOR_BUFFER_BIT}]\<rparr>)"
  using assms by (simp add: NotifyStencilUpload_def emit_def zero_clear_def)

theorem NotifyStencilUpload_all_zero_witness:
  "MayIntersectFramebuffer (ex_env (\<lambda>j. 0) None) 0x04000000
   \<and> find_dstBuffer (MaskedEqual (ex_env (\<lambda>j. 0) None)) 0x04000000
        (vfbs (ex_manager GE_FORMAT_8888)) None = Some (ex_vfb GE_FORMAT_8888)
   \<and> format (ex_vfb GE_FORMAT_8888) = GE_FORMAT_8888
   \<and> GetPointer (ex_env (\<lambda>j. 0) None) 0x04000000 = Some 0
   \<and> stencil_switch (\<lambda>j. memory (ex_env (\<lambda>j. 0) None) (0 + j)) (ex_vfb GE_FORMAT_8888)
        = Some (0, 256)
   \<and> NotifyStencilUpload (ex_env (\<lambda>j. 0) None) (ex_manager GE_FORMAT_8888) 0x04000000 0 True
        = Some (False, ex_manager GE_FORMAT_8888)
   \<and> NotifyStencilUpload (ex_env (\<lambda>j. 0) None) (ex_manager GE_FORMAT_8888) 0x04000000 0 False
        = Some (True, \<lparr>vfbs = [ex_vfb GE_FORMAT_8888], stencilUploadProgram = None, issued =
            [ScissorTestDisable, ColorMaskSet False False False True, GlClearColor 0 0 0 0,
             GlClearStencil 0, GlClear {GL_STENCIL_BUFFER_BIT, GL_COLOR_BUFFER_BIT}]\<rparr>)"
proof -
  have h1: "MayIntersectFramebuffer (ex_env (\<lambda>j. 0) None) 0x04000000"
    by (rule ex_env_simps)
  have h2: "find_dstBuffer (MaskedEqual (ex_env (\<lambda>j. 0) None)) 0x04000000
        (vfbs (ex_manager GE_FORMAT_8888)) None = Some (ex_vfb GE_FORMAT_8888)"
    by (rule ex_find)
  have h3: "format (ex_vfb GE_FORMAT_8888) = GE_FORMAT_8888"
    by (simp add: ex_vfb_def)
  have h4: "GetPointer (ex_env (\<lambda>j. 0) None) 0x04000000 = Some 0"
    by (rule ex_env_simps)
  have h5: "stencil_switch (\<lambda>j. memory (ex_env (\<lambda>j. 0) None) (0 + j)) (ex_vfb GE_FORMAT_8888)
        = Some (0, 256)"
    by (simp add: stencil_switch_def h3 ex_env_simps zero_memory_scan)
  have h3': "format (ex_vfb GE_FORMAT_8888) = GE_FORMAT_5551
     \<or> format (ex_vfb GE_FORMAT_8888) = GE_FORMAT_4444
     \<or> format (ex_vfb GE_FORMAT_8888) = GE_FORMAT_8888"
    using h3 by simp
  note t = NotifyStencilUpload_all_zero [OF h1 h2 h3' h4 h5, of 0]
  show ?thesis
    using t h1 h2 h3 h4 h5 by (simp add: ex_manager_def)
qed

text \<open>
  Claim C5. When the address resolves to a tracked target of format 565 the function returns
  false and the state is the one before the call, whatever the memory holds: no call is
  issued and the result is the same for every memory content.
\<close>
theorem NotifyStencilUpload_565:
  assumes "find_dstBuffer (MaskedEqual e) addr (vfbs st) None = Some dstBuffer"
    and "format dstBuffer = GE_FORMAT_565"
  shows "NotifyStencilUpload e st addr sz skipZero = Some (False, st)
    \<and> (\<forall>mem. NotifyStencilUpload (e\<lparr>memory := mem\<rparr>) st addr sz skipZero = Some (False, st))"
  using assms
  by (simp add: NotifyStencilUpload_def stencil_switch_def split: option.splits)

theorem NotifyStencilUpload_565_witness:
  "find_dstBuffer (MaskedEqual (ex_env (one_byte 3 0xFF) None)) 0x04000000
        (vfbs (ex_manager GE_FORMAT_565)) None = Some (ex_vfb GE_FORMAT_565)
   \<and> format (ex_vfb GE_FORMAT_565) = GE_FORMAT_565
   \<and> NotifyStencilUpload (ex_env (one_byte 3 0xFF) None) (ex_manager GE_FORMAT_565) 0x04000000 0 False
        = Some (False, ex_manager GE_FORMAT_565)"
proof -
  have h1: "find_dstBuffer (MaskedEqual (ex_env (one_byte 3 0xFF) None)) 0x04000000
        (vfbs (ex_manager GE_FORMAT_565)) None = Some (ex_vfb GE_FORMAT_565)"
    by (rule ex_find)
  have h2: "format (ex_vfb GE_FORMAT_565) = GE_FORMAT_565"
    by (simp add: ex_vfb_def)
  show ?thesis
    using NotifyStencilUpload_565 [OF h1 h2, of 0 False] h1 h2 by simp
qed

text \<open>
  Claim C7. When no tracked target matches the address, or the memory pointer of the address
  is null (or the address fails the first range test), the function returns false and the
  state is the one before the call.
\<close>
theorem NotifyStencilUpload_unresolved:
  assumes "(\<forall>vfb\<in>set (vfbs st). \<not> MaskedEqual e (fb_address vfb) addr)
           \<or> GetPointer e addr = None \<or> \<not> MayIntersectFramebuffer e addr"
  shows "NotifyStencilUpload e st addr sz skipZero = Some (False, st)"
proof -
  from assms show ?thesis
  proof (elim disjE)
    assume "\<forall>vfb\<in>set (vfbs st). \<not> MaskedEqual e (fb_address vfb) addr"
    then have "find_dstBuffer (MaskedEqual e) addr (vfbs st) None = None"
      by (simp add: find_dstBuffer_None)
    then show ?thesis by (simp add: NotifyStencilUpload_def)
  next
    assume "GetPointer e addr = None"
    then show ?thesis by (simp add: NotifyStencilUpload_def split: option.splits)
  next
    assume "\<not> MayIntersectFramebuffer e addr"
    then show ?thesis by (simp add: NotifyStencilUpload_def)
  qed
qed

theorem NotifyStencilUpload_unresolved_witness:
  "GetPointer (ex_env (one_byte 3 0xFF) None) 0x04100000 = None
   \<and> NotifyStencilUpload (ex_env (one_byte 3 0xFF) None) (ex_manager GE_FORMAT_8888) 0x04100000 0 False
        = Some (False, ex_manager GE_FORMAT_8888)
   \<and> vfbs (ex_manager GE_FORMAT_8888) = [ex_vfb GE_FORMAT_8888]
   \<and> \<not> MaskedEqual (ex_env (one_byte 3 0xFF) None) (fb_address (ex_vfb GE_FORMAT_8888))
         0x04000100
   \<and> NotifyStencilUpload (ex_env (one_byte 3 0xFF) None) (ex_manager GE_FORMAT_8888) 0x04000100 0 False
        = Some (False, ex_manager GE_FORMAT_8888)"
proof -
  have h1: "GetPointer (ex_env (one_byte 3 0xFF) None) 0x04100000 = None"
    by (simp add: ex_env_def)
  have h2: "\<forall>vfb\<in>set (vfbs (ex_manager GE_FORMAT_8888)).
         \<not> MaskedEqual (ex_env (one_byte 3 0xFF) None) (fb_address vfb) 0x04000100"
    by (simp add: ex_env_def ex_manager_def ex_vfb_def)
  have h3: "vfbs (ex_manager GE_FORMAT_8888) = [ex_vfb GE_FORMAT_8888]"
    by (simp add: ex_manager_def)
  have h4: "\<not> MaskedEqual (ex_env (one_byte 3 0xFF) None) (fb_address (ex_vfb GE_FORMAT_8888))
         0x04000100"
    by (simp add: ex_env_def ex_vfb_def)
  show ?thesis
    using NotifyStencilUpload_unresolved
            [of "ex_manager GE_FORMAT_8888" "ex_env (one_byte 3 0xFF) None" "0x04100000" 0 False]
          NotifyStencilUpload_unresolved
            [of "ex_manager GE_FORMAT_8888" "ex_env (one_byte 3 0xFF) None" "0x04000100" 0 False]
          h1 h2 h3 h4
    by blast
qed

text \<open>
  Claim C10. When the resolved target has the invalid format (and the address and the memory
  pointer have resolved, so that the \<open>switch\<close> is reached), nothing is scanned: \<open>usedBits\<close>
  and \<open>values\<close> stay 0 and the result does not depend on the memory. With \<open>skipZero\<close> true
  the function returns false and changes nothing; with \<open>skipZero\<close> false it issues the clear
  of the stencil and colour buffers under the alpha-only colour mask and returns true.
\<close>
theorem NotifyStencilUpload_invalid_format:
  assumes "MayIntersectFramebuffer e addr"
    and "find_dstBuffer (MaskedEqual e) addr (vfbs st) None = Some dstBuffer"
    and "format dstBuffer = GE_FORMAT_INVALID"
    and "GetPointer e addr = Some src"
  shows "stencil_switch (\<lambda>j. memory e (src + j)) dstBuffer = Some (0, 0)
    \<and> NotifyStencilUpload e st addr sz True = Some (False, st)
    \<and> NotifyStencilUpload e st addr sz False =
        Some (True, st\<lparr>issued := issued st @
          [ScissorTestDisable, ColorMaskSet False False False True, GlClearColor 0 0 0 0,
           GlClearStencil 0, GlClear {GL_STENCIL_BUFFER_BIT, GL_COLOR_BUFFER_BIT}]\<rparr>)
    \<and> (\<forall>mem. NotifyStencilUpload (e\<lparr>memory := mem\<rparr>) st addr sz skipZero =
               NotifyStencilUpload e st addr sz skipZero)"
  using assms
  by (simp add: NotifyStencilUpload_def stencil_switch_def emit_def zero_clear_def)

theorem NotifyStencilUpload_invalid_format_witness:
  "MayIntersectFramebuffer (ex_env (one_byte 3 0xFF) None) 0x04000000
   \<and> find_dstBuffer (MaskedEqual (ex_env (one_byte 3 0xFF) None)) 0x04000000
        (vfbs (ex_manager GE_FORMAT_INVALID)) None = Some (ex_vfb GE_FORMAT_INVALID)
   \<and> format (ex_vfb GE_FORMAT_INVALID) = GE_FORMAT_INVALID
   \<and> GetPointer (ex_env (one_byte 3 0xFF) None) 0x04000000 = Some 0
   \<and> NotifyStencilUpload (ex_env (one_byte 3 0xFF) None) (ex_manager GE_FORMAT_INVALID) 0x04000000 0 True
        = Some (False, ex_manager GE_FORMAT_INVALID)
   \<and> NotifyStencilUpload (ex_env (one_byte 3 0xFF) None) (ex_manager GE_FORMAT_INVALID) 0x04000000 0 False
        = Some (True, \<lparr>vfbs = [ex_vfb GE_FORMAT_INVALID], stencilUploadProgram = None, issued =
            [ScissorTestDisable, ColorMaskSet False False False True, GlClearColor 0 0 0 0,
             GlClearStencil 0, GlClear {GL_STENCIL_BUFFER_BIT, GL_COLOR_BUFFER_BIT}]\<rparr>)"
proof -
  have h1: "MayIntersectFramebuffer (ex_env (one_byte 3 0xFF) None) 0x04000000"
    by (rule ex_env_simps)
  have h2: "find_dstBuffer (MaskedEqual (ex_env (one_byte 3 0xFF) None)) 0x04000000
        (vfbs (ex_manager GE_FORMAT_INVALID)) None = Some (ex_vfb GE_FORMAT_INVALID)"
    by (rule ex_find)
  have h3: "format (ex_vfb GE_FORMAT_INVALID) = GE_FORMAT_INVALID"
    by (simp add: ex_vfb_def)
  have h4: "GetPointer (ex_env (one_byte 3 0xFF) None) 0x04000000 = Some 0"
    by (rule ex_env_simps)
  note t = NotifyStencilUpload_invalid_format [OF h1 h2 h3 h4, of 0 False]
  show ?thesis
    using t h1 h2 h3 h4 by (simp add: ex_manager_def)
qed

subsection \<open>The path through the shader\<close>

lemma ex_scan_8888: "StencilBits8888 (one_byte 3 0x20) 2 = 0x20"
  by (simp add: StencilBits8888_def StencilBits8888_loop.simps read_u32_def one_byte_def)

lemma ex_format: "format (ex_vfb f) = f"
  by (simp add: ex_vfb_def)

lemma ex_switch_8888:
  "stencil_switch (\<lambda>j. memory (ex_env (one_byte 3 0x20) c) (0 + j)) (ex_vfb GE_FORMAT_8888)
     = Some (0x20, 256)"
  by (simp add: stencil_switch_def ex_format ex_env_simps ex_numPixels ex_scan_8888)

text \<open>
  Claim C6. The claim asks that a call whose shader compilation fails reports the failure and
  then does nothing. The source reports the failure and guards \<open>glsl_bind\<close> against the null
  program, but it does not return: the two uniform lookups are made on the null program and
  the rest of the function runs as in any other call. The lookup function is defined outside
  this file, so the evaluation is made for every lookup function \<open>f\<close>. The input: no cached
  program, a compiler that fails, one tracked 8888 target of 2x1 pixels whose first pixel has
  alpha \<open>0x20\<close>, and the skip flag set. The function reports the error, leaves the cached
  program empty, sets up the state, clears the stencil plane, draws plane \<open>0x20\<close> and returns
  true.
\<close>

theorem NotifyStencilUpload_compile_failure_not_noop:
  "NotifyStencilUpload ((ex_env (one_byte 3 0x20) None)\<lparr>glsl_uniform_loc := f\<rparr>)
       (ex_manager GE_FORMAT_8888) 0x04000000 0 True
     = Some (True, \<lparr>vfbs = [ex_vfb GE_FORMAT_8888], stencilUploadProgram = None, issued =
         [GlslCreateSource (GLSLES100PrefixProgram True stencil_vs)
            (GLSLES100PrefixProgram True stencil_fs),
          ErrorLogReport ''error'', GlUniform1i (f None ''tex'') 0,
          DirtyLastShader, DisableState, ColorMaskSet False False False True,
          StencilTestEnable, StencilOpSet GL_REPLACE GL_REPLACE GL_REPLACE,
          BindFramebufferAsRenderTarget 7, GlViewport 0 0 2 1,
          MakePixelTexture 0 GE_FORMAT_8888 2 2 1, ForgetLastTexture,
          GlClearStencil 0, GlClear {GL_STENCIL_BUFFER_BIT},
          StencilFuncSet GL_ALWAYS 0xFF 0xFF,
          StencilMaskSet 0x20, GlUniform1f (f None ''u_stencilValue'') (32 / 255),
          DrawActiveTexture 0 0 2 1 2 1 0 0 1 1 ROTATION_LOCKED_HORIZONTAL False,
          StencilMaskSet 0xFF, RebindFramebuffer]\<rparr>)"
proof -
  have sw: "stencil_switch (\<lambda>j. one_byte 3 0x20 j) (ex_vfb GE_FORMAT_8888) = Some (0x20, 256)"
    by (simp add: stencil_switch_def ex_format ex_numPixels ex_scan_8888)
  have loop: "draw_loop d u uv 0x20 256 1 cs = Some (cs @ plane_calls d u uv 32)" for d u uv cs
    by (simp add: draw_loop.simps)
  show ?thesis
    apply (simp add: NotifyStencilUpload_def ex_env_simps ex_find sw)
    apply (simp add: upload_planes_def bind_stencilUploadProgram_def Let_def loop emit_def)
    apply (simp add: ex_env_def ex_manager_def upload_prologue_def upload_epilogue_def
        plane_calls_def useBlit_of_def ex_vfb_def emit_def)
    done
qed

lemma representable_bits:
  "{k. (2 :: int) ^ k < 2 ^ K \<and> bit (usedBits :: u8) k} = {k. k < K \<and> bit usedBits k}"
  by simp

lemma filter_plane_test:
  "filter (\<lambda>k. uint (usedBits :: u8) AND 2 ^ k \<noteq> 0) ks = filter (bit usedBits) ks"
  by (simp add: plane_test)

lemma width_le_8: "stencil_bit_width f \<le> 8"
  by (simp add: stencil_bit_width_def split: GEBufferFormat.splits)

text \<open>
  Claim C8. In every call that reaches the draw loop, \<open>values\<close> is 2, 16 or 256 by format,
  the loop goes through \<open>i = 1, 2, 4, \<dots>\<close> below \<open>values\<close> in increasing order, passes
  over every \<open>i\<close> with \<open>usedBits & i = 0\<close>, and issues the calls of one plane, with exactly
  one textured-quad draw, for each remaining \<open>i\<close>. No other draw is issued, so the number of
  draws is the number of bits of \<open>usedBits\<close> set at positions below the bit width, and at
  most 8.
\<close>
theorem NotifyStencilUpload_draw_loop:
  assumes "MayIntersectFramebuffer e addr"
    and "find_dstBuffer (MaskedEqual e) addr (vfbs st) None = Some dstBuffer"
    and "GetPointer e addr = Some src"
    and "stencil_switch (\<lambda>j. memory e (src + j)) dstBuffer = Some (usedBits, values)"
    and "usedBits \<noteq> 0"
  shows "\<exists>st' pre post u uv.
       values = 2 ^ stencil_bit_width (format dstBuffer)
     \<and> (values = 2 \<or> values = 16 \<or> values = 256)
     \<and> NotifyStencilUpload e st addr sz skipZero = Some (True, st')
     \<and> new_calls st st' = pre
          @ concat (map (\<lambda>k. plane_calls dstBuffer u uv (2 ^ k))
              (filter (\<lambda>k. uint usedBits AND 2 ^ k \<noteq> 0)
                 [0..<stencil_bit_width (format dstBuffer)]))
          @ post
     \<and> (\<forall>c\<in>set pre \<union> set post. \<not> is_draw c)
     \<and> (\<forall>i. length (filter is_draw (plane_calls dstBuffer u uv i)) = 1)
     \<and> length (filter is_draw (new_calls st st'))
          = card {k. 2 ^ k < values \<and> bit usedBits k}
     \<and> length (filter is_draw (new_calls st st')) \<le> 8"
proof -
  let ?K = "stencil_bit_width (format dstBuffer)"
  let ?b = "bind_stencilUploadProgram e st"
  let ?u = "glsl_uniform_loc e (stencilUploadProgram ?b) ''u_stencilValue''"
  let ?uv = "PixelTexture_uv e (format dstBuffer) (fb_stride dstBuffer)
                 (bufferWidth dstBuffer) (bufferHeight dstBuffer)"
  let ?ks = "filter (bit usedBits) [0..<?K]"
  let ?f = "\<lambda>k. plane_calls dstBuffer ?u ?uv (2 ^ k)"
  let ?pro = "upload_prologue e dstBuffer src"
  let ?epi = "upload_epilogue e dstBuffer"
  obtain bc where bc: "issued ?b = issued st @ bc" "\<forall>c\<in>set bc. \<not> is_draw c \<and> \<not> is_stencil_mask c"
    using bind_issued by blast
  let ?st' = "?b\<lparr>issued := issued ?b @ ?pro @ concat (map ?f ?ks) @ ?epi\<rparr>"
  have v: "values = 2 ^ ?K"
    using assms(4,5) by (rule stencil_switch_values)
  have fmt: "format dstBuffer = GE_FORMAT_5551 \<or> format dstBuffer = GE_FORMAT_4444
      \<or> format dstBuffer = GE_FORMAT_8888"
    using assms(4,5) by (rule stencil_switch_values)
  have v3: "values = 2 \<or> values = 16 \<or> values = 256"
    using fmt v by (auto simp add: stencil_bit_width_def)
  have res: "NotifyStencilUpload e st addr sz skipZero = Some (True, ?st')"
    by (rule NotifyStencilUpload_planes [OF assms])
  have new: "new_calls st ?st' = (bc @ ?pro) @ concat (map ?f ?ks) @ ?epi"
    by (simp add: new_calls_def bc(1))
  have nd_pre: "\<forall>c\<in>set (bc @ ?pro). \<not> is_draw c"
    using bc(2) prologue_no_draw by auto
  have nd_post: "\<forall>c\<in>set ?epi. \<not> is_draw c"
    using epilogue_no_draw by blast
  have draws_pre: "filter is_draw (bc @ ?pro) = []"
    by (rule no_draw_filter) (use nd_pre in blast)
  have draws_epi: "filter is_draw ?epi = []"
    by (rule no_draw_filter) (use nd_post in blast)
  have draws_planes: "length (filter is_draw (concat (map ?f ?ks))) = length ?ks"
    by (rule draws_concat) (rule plane_calls_one_draw)
  have count: "length (filter is_draw (new_calls st ?st')) = length ?ks"
    unfolding new using draws_pre draws_epi draws_planes by simp
  have card: "length ?ks = card {k. 2 ^ k < values \<and> bit usedBits k}"
    unfolding v representable_bits by (rule set_bits_count)
  have le: "length ?ks \<le> 8"
    using set_bits_le [of "bit usedBits" ?K] width_le_8 [of "format dstBuffer"] by simp
  show ?thesis
  proof (intro exI conjI)
    show "values = 2 ^ ?K" by (rule v)
    show "values = 2 \<or> values = 16 \<or> values = 256" by (rule v3)
    show "NotifyStencilUpload e st addr sz skipZero = Some (True, ?st')" by (rule res)
    show "new_calls st ?st' = (bc @ ?pro)
          @ concat (map (\<lambda>k. plane_calls dstBuffer ?u ?uv (2 ^ k))
              (filter (\<lambda>k. uint usedBits AND 2 ^ k \<noteq> 0) [0..<?K]))
          @ ?epi"
      unfolding filter_plane_test by (rule new)
    show "\<forall>c\<in>set (bc @ ?pro) \<union> set ?epi. \<not> is_draw c"
      using nd_pre nd_post by blast
    show "\<forall>i. length (filter is_draw (plane_calls dstBuffer ?u ?uv i)) = 1"
      by (simp add: plane_calls_one_draw)
    show "length (filter is_draw (new_calls st ?st')) = card {k. 2 ^ k < values \<and> bit usedBits k}"
      unfolding count by (rule card)
    show "length (filter is_draw (new_calls st ?st')) \<le> 8"
      unfolding count by (rule le)
  qed
qed

lemma bit_0x20: "bit (0x20 :: u8) k \<longleftrightarrow> k = 5"
proof -
  have "(0x20 :: u8) = 2 ^ 5" by simp
  then show ?thesis by (simp only: bit_exp_iff) auto
qed

theorem NotifyStencilUpload_draw_loop_witness:
  "MayIntersectFramebuffer (ex_env (one_byte 3 0x20) (Some 5)) 0x04000000
   \<and> find_dstBuffer (MaskedEqual (ex_env (one_byte 3 0x20) (Some 5))) 0x04000000
        (vfbs (ex_manager GE_FORMAT_8888)) None = Some (ex_vfb GE_FORMAT_8888)
   \<and> GetPointer (ex_env (one_byte 3 0x20) (Some 5)) 0x04000000 = Some 0
   \<and> stencil_switch (\<lambda>j. memory (ex_env (one_byte 3 0x20) (Some 5)) (0 + j))
        (ex_vfb GE_FORMAT_8888) = Some (0x20, 256)
   \<and> (0x20 :: u8) \<noteq> 0
   \<and> (\<exists>st'. NotifyStencilUpload (ex_env (one_byte 3 0x20) (Some 5)) (ex_manager GE_FORMAT_8888)
               0x04000000 0 False = Some (True, st')
          \<and> length (filter is_draw (new_calls (ex_manager GE_FORMAT_8888) st')) = 1)"
proof -
  have h1: "MayIntersectFramebuffer (ex_env (one_byte 3 0x20) (Some 5)) 0x04000000"
    by (rule ex_env_simps)
  have h2: "find_dstBuffer (MaskedEqual (ex_env (one_byte 3 0x20) (Some 5))) 0x04000000
        (vfbs (ex_manager GE_FORMAT_8888)) None = Some (ex_vfb GE_FORMAT_8888)"
    by (rule ex_find)
  have h3: "GetPointer (ex_env (one_byte 3 0x20) (Some 5)) 0x04000000 = Some 0"
    by (rule ex_env_simps)
  have h4: "stencil_switch (\<lambda>j. memory (ex_env (one_byte 3 0x20) (Some 5)) (0 + j))
        (ex_vfb GE_FORMAT_8888) = Some (0x20, 256)"
    by (rule ex_switch_8888)
  have h5: "(0x20 :: u8) \<noteq> 0" by simp
  have p: "(2 :: int) ^ 5 < 256" by simp
  have "(2 :: int) ^ k < 256 \<and> bit (0x20 :: u8) k \<longleftrightarrow> k = 5" for k
    using bit_0x20 [of k] p by metis
  then have "{k. (2 :: int) ^ k < 256 \<and> bit (0x20 :: u8) k} = {5}"
    by (simp only: Collect_conv_if) simp
  then have c: "card {k. (2 :: int) ^ k < 256 \<and> bit (0x20 :: u8) k} = 1"
    by simp
  have "\<exists>st'. NotifyStencilUpload (ex_env (one_byte 3 0x20) (Some 5)) (ex_manager GE_FORMAT_8888)
               0x04000000 0 False = Some (True, st')
          \<and> length (filter is_draw (new_calls (ex_manager GE_FORMAT_8888) st'))
              = card {k. (2 :: int) ^ k < 256 \<and> bit (0x20 :: u8) k}"
    using NotifyStencilUpload_draw_loop [OF h1 h2 h3 h4 h5, of 0 False] by blast
  then have "\<exists>st'. NotifyStencilUpload (ex_env (one_byte 3 0x20) (Some 5))
               (ex_manager GE_FORMAT_8888) 0x04000000 0 False = Some (True, st')
          \<and> length (filter is_draw (new_calls (ex_manager GE_FORMAT_8888) st')) = 1"
    unfolding c .
  with h1 h2 h3 h4 h5 show ?thesis by blast
qed

lemma plane_calls_form:
  "plane_calls dst u uv i =
     [StencilMaskSet (case format dst of GE_FORMAT_4444 \<Rightarrow> push_bit 4 i OR i
                        | GE_FORMAT_5551 \<Rightarrow> 0xFF | _ \<Rightarrow> i),
      GlUniform1f u (real_of_int i * (case format dst of GE_FORMAT_4444 \<Rightarrow> 16 / 255
                        | GE_FORMAT_5551 \<Rightarrow> 128 / 255 | _ \<Rightarrow> 1 / 255)),
      DrawActiveTexture 0 0 (width dst) (height dst) (bufferWidth dst) (bufferHeight dst)
        0 0 (fst uv) (snd uv) ROTATION_LOCKED_HORIZONTAL False]"
  by (simp add: plane_calls_def split: GEBufferFormat.splits)

text \<open>
  Claim C9. In every pass of the draw loop that is not skipped, the stencil write mask is set
  just before the uniform and the draw: to the nibble pair \<open>(i << 4) | i\<close> for the 4444
  format, to the single bit \<open>i\<close> for the 8888 format, and to the whole stencil byte \<open>0xFF\<close>
  for the 1-bit 5551 format. Directly after the loop the mask is set to \<open>0xFF\<close>, and the
  function itself sets the mask nowhere else.
\<close>
theorem NotifyStencilUpload_stencil_masks:
  assumes "MayIntersectFramebuffer e addr"
    and "find_dstBuffer (MaskedEqual e) addr (vfbs st) None = Some dstBuffer"
    and "GetPointer e addr = Some src"
    and "stencil_switch (\<lambda>j. memory e (src + j)) dstBuffer = Some (usedBits, values)"
    and "usedBits \<noteq> 0"
  shows "\<exists>st' pre post u wt draw.
       NotifyStencilUpload e st addr sz skipZero = Some (True, st')
     \<and> (format dstBuffer = GE_FORMAT_5551 \<or> format dstBuffer = GE_FORMAT_4444
          \<or> format dstBuffer = GE_FORMAT_8888)
     \<and> new_calls st st' = pre
          @ concat (map (\<lambda>k. [StencilMaskSet
                                (case format dstBuffer of
                                   GE_FORMAT_4444 \<Rightarrow> push_bit 4 (2 ^ k) OR 2 ^ k
                                 | GE_FORMAT_5551 \<Rightarrow> 0xFF
                                 | _ \<Rightarrow> 2 ^ k),
                              GlUniform1f u (wt k), draw])
              (filter (bit usedBits) [0..<stencil_bit_width (format dstBuffer)]))
          @ [StencilMaskSet 0xFF] @ post
     \<and> is_draw draw
     \<and> (\<forall>c\<in>set pre \<union> set post. \<not> is_stencil_mask c \<and> \<not> is_draw c)"
proof -
  let ?K = "stencil_bit_width (format dstBuffer)"
  let ?b = "bind_stencilUploadProgram e st"
  let ?u = "glsl_uniform_loc e (stencilUploadProgram ?b) ''u_stencilValue''"
  let ?uv = "PixelTexture_uv e (format dstBuffer) (fb_stride dstBuffer)
                 (bufferWidth dstBuffer) (bufferHeight dstBuffer)"
  let ?ks = "filter (bit usedBits) [0..<?K]"
  let ?f = "\<lambda>k. plane_calls dstBuffer ?u ?uv (2 ^ k)"
  let ?pro = "upload_prologue e dstBuffer src"
  let ?epi = "upload_epilogue e dstBuffer"
  let ?wt = "\<lambda>k :: nat. real_of_int (2 ^ k) * (case format dstBuffer of GE_FORMAT_4444 \<Rightarrow> 16 / 255
                        | GE_FORMAT_5551 \<Rightarrow> 128 / 255 | _ \<Rightarrow> 1 / 255)"
  let ?draw = "DrawActiveTexture 0 0 (width dstBuffer) (height dstBuffer)
        (bufferWidth dstBuffer) (bufferHeight dstBuffer)
        0 0 (fst ?uv) (snd ?uv) ROTATION_LOCKED_HORIZONTAL False"
  obtain bc where bc: "issued ?b = issued st @ bc"
      "\<forall>c\<in>set bc. \<not> is_draw c \<and> \<not> is_stencil_mask c"
    using bind_issued by blast
  obtain post where post: "?epi = StencilMaskSet 0xFF # post"
      "\<forall>c\<in>set post. \<not> is_draw c \<and> \<not> is_stencil_mask c"
    using epilogue_mask by blast
  let ?st' = "?b\<lparr>issued := issued ?b @ ?pro @ concat (map ?f ?ks) @ ?epi\<rparr>"
  have fmt: "format dstBuffer = GE_FORMAT_5551 \<or> format dstBuffer = GE_FORMAT_4444
      \<or> format dstBuffer = GE_FORMAT_8888"
    using assms(4,5) by (rule stencil_switch_values)
  have res: "NotifyStencilUpload e st addr sz skipZero = Some (True, ?st')"
    by (rule NotifyStencilUpload_planes [OF assms])
  have new: "new_calls st ?st' = (bc @ ?pro) @ concat (map ?f ?ks) @ [StencilMaskSet 0xFF] @ post"
    by (simp add: new_calls_def bc(1) post(1))
  have planes: "?f = (\<lambda>k. [StencilMaskSet
                                (case format dstBuffer of
                                   GE_FORMAT_4444 \<Rightarrow> push_bit 4 (2 ^ k) OR 2 ^ k
                                 | GE_FORMAT_5551 \<Rightarrow> 0xFF
                                 | _ \<Rightarrow> 2 ^ k),
                              GlUniform1f ?u (?wt k), ?draw])"
    by (rule ext) (simp only: plane_calls_form)
  have clean: "\<forall>c\<in>set (bc @ ?pro) \<union> set post. \<not> is_stencil_mask c \<and> \<not> is_draw c"
    using bc(2) post(2) prologue_no_draw by auto
  show ?thesis
  proof (intro exI conjI)
    show "NotifyStencilUpload e st addr sz skipZero = Some (True, ?st')" by (rule res)
    show "format dstBuffer = GE_FORMAT_5551 \<or> format dstBuffer = GE_FORMAT_4444
          \<or> format dstBuffer = GE_FORMAT_8888" by (rule fmt)
    show "new_calls st ?st' = (bc @ ?pro)
          @ concat (map (\<lambda>k. [StencilMaskSet
                                (case format dstBuffer of
                                   GE_FORMAT_4444 \<Rightarrow> push_bit 4 (2 ^ k) OR 2 ^ k
                                 | GE_FORMAT_5551 \<Rightarrow> 0xFF
                                 | _ \<Rightarrow> 2 ^ k),
                              GlUniform1f ?u (?wt k), ?draw]) ?ks)
          @ [StencilMaskSet 0xFF] @ post"
      using new by (simp only: planes)
    show "is_draw ?draw" by simp
    show "\<forall>c\<in>set (bc @ ?pro) \<union> set post. \<not> is_stencil_mask c \<and> \<not> is_draw c"
      by (rule clean)
  qed
qed

lemma ex_scan_4444: "StencilBits4444 (one_byte 3 0x50) 2 = 5"
  by (simp add: StencilBits4444_def Let_def StencilBits4444_loop.simps read_u32_def one_byte_def)

lemma ex_switch_4444:
  "stencil_switch (\<lambda>j. memory (ex_env (one_byte 3 0x50) c) (0 + j)) (ex_vfb GE_FORMAT_4444)
     = Some (5, 16)"
  by (simp add: stencil_switch_def ex_format ex_env_simps ex_numPixels ex_scan_4444)

lemma ex_planes_4444: "filter (bit (5 :: u8)) [0..<4] = [0, 2]"
  by (simp add: upt_rec bit_numeral_rec)

theorem NotifyStencilUpload_stencil_masks_witness:
  "MayIntersectFramebuffer (ex_env (one_byte 3 0x50) (Some 5)) 0x04000000
   \<and> find_dstBuffer (MaskedEqual (ex_env (one_byte 3 0x50) (Some 5))) 0x04000000
        (vfbs (ex_manager GE_FORMAT_4444)) None = Some (ex_vfb GE_FORMAT_4444)
   \<and> GetPointer (ex_env (one_byte 3 0x50) (Some 5)) 0x04000000 = Some 0
   \<and> stencil_switch (\<lambda>j. memory (ex_env (one_byte 3 0x50) (Some 5)) (0 + j))
        (ex_vfb GE_FORMAT_4444) = Some (5, 16)
   \<and> (5 :: u8) \<noteq> 0
   \<and> (\<exists>st' pre post u wt draw.
         NotifyStencilUpload (ex_env (one_byte 3 0x50) (Some 5)) (ex_manager GE_FORMAT_4444)
               0x04000000 0 False = Some (True, st')
       \<and> new_calls (ex_manager GE_FORMAT_4444) st' = pre
            @ [StencilMaskSet 0x11, GlUniform1f u (wt (0 :: nat)), draw,
               StencilMaskSet 0x44, GlUniform1f u (wt 2), draw]
            @ [StencilMaskSet 0xFF] @ post
       \<and> is_draw draw
       \<and> (\<forall>c\<in>set pre \<union> set post. \<not> is_stencil_mask c \<and> \<not> is_draw c))"
proof -
  have h1: "MayIntersectFramebuffer (ex_env (one_byte 3 0x50) (Some 5)) 0x04000000"
    by (rule ex_env_simps)
  have h2: "find_dstBuffer (MaskedEqual (ex_env (one_byte 3 0x50) (Some 5))) 0x04000000
        (vfbs (ex_manager GE_FORMAT_4444)) None = Some (ex_vfb GE_FORMAT_4444)"
    by (rule ex_find)
  have h3: "GetPointer (ex_env (one_byte 3 0x50) (Some 5)) 0x04000000 = Some 0"
    by (rule ex_env_simps)
  have h4: "stencil_switch (\<lambda>j. memory (ex_env (one_byte 3 0x50) (Some 5)) (0 + j))
        (ex_vfb GE_FORMAT_4444) = Some (5, 16)"
    by (rule ex_switch_4444)
  have h5: "(5 :: u8) \<noteq> 0" by simp
  have w: "stencil_bit_width GE_FORMAT_4444 = 4"
    by (simp add: stencil_bit_width_def)
  have f: "format (ex_vfb GE_FORMAT_4444) = GE_FORMAT_4444" by (rule ex_format)
  from NotifyStencilUpload_stencil_masks [OF h1 h2 h3 h4 h5, of 0 False]
  obtain st' pre post u wt draw where
    r: "NotifyStencilUpload (ex_env (one_byte 3 0x50) (Some 5)) (ex_manager GE_FORMAT_4444)
               0x04000000 0 False = Some (True, st')"
    and n: "new_calls (ex_manager GE_FORMAT_4444) st' = pre
          @ concat (map (\<lambda>k. [StencilMaskSet
                                (case format (ex_vfb GE_FORMAT_4444) of
                                   GE_FORMAT_4444 \<Rightarrow> push_bit 4 (2 ^ k) OR 2 ^ k
                                 | GE_FORMAT_5551 \<Rightarrow> 0xFF
                                 | _ \<Rightarrow> 2 ^ k),
                              GlUniform1f u (wt k), draw])
              (filter (bit (5 :: u8)) [0..<stencil_bit_width (format (ex_vfb GE_FORMAT_4444))]))
          @ [StencilMaskSet 0xFF] @ post"
    and d: "is_draw draw"
    and c: "\<forall>c\<in>set pre \<union> set post. \<not> is_stencil_mask c \<and> \<not> is_draw c"
    by blast
  have n': "new_calls (ex_manager GE_FORMAT_4444) st' = pre
            @ [StencilMaskSet 0x11, GlUniform1f u (wt (0 :: nat)), draw,
               StencilMaskSet 0x44, GlUniform1f u (wt 2), draw]
            @ [StencilMaskSet 0xFF] @ post"
    unfolding n f w ex_planes_4444 by simp
  from r n' d c have "\<exists>st' pre post u wt draw.
         NotifyStencilUpload (ex_env (one_byte 3 0x50) (Some 5)) (ex_manager GE_FORMAT_4444)
               0x04000000 0 False = Some (True, st')
       \<and> new_calls (ex_manager GE_FORMAT_4444) st' = pre
            @ [StencilMaskSet 0x11, GlUniform1f u (wt (0 :: nat)), draw,
               StencilMaskSet 0x44, GlUniform1f u (wt 2), draw]
            @ [StencilMaskSet 0xFF] @ post
       \<and> is_draw draw
       \<and> (\<forall>c\<in>set pre \<union> set post. \<not> is_stencil_mask c \<and> \<not> is_draw c)"
    by blast
  with h1 h2 h3 h4 h5 show ?thesis by blast
qed

end
